theory Spec2Isabelle
  imports Complex_Main "HOL-Library.AList" "HOL-Library.Char_ord" "HOL-Library.List_Lexorder"
begin

section \<open>Python values used by the memory service\<close>

text \<open>
  Exceptions of the program. \<open>RuntimeError\<close> is what \<open>_ensure_initialized\<close> raises;
  \<open>BackendError\<close> stands for any exception raised inside a ChromaDB call, carrying its
  message (\<open>str(e)\<close>); \<open>IndexError\<close> and \<open>OverflowError\<close> are raised by list indexing and
  by \<open>int(float)\<close> inside the service's own loops.
\<close>

datatype exn = RuntimeError string | BackendError string | IndexError string | OverflowError string

fun str_exn :: "exn \<Rightarrow> string" where
  "str_exn (RuntimeError m) = m"
| "str_exn (BackendError m) = m"
| "str_exn (IndexError m) = m"
| "str_exn (OverflowError m) = m"

text \<open>
  A Python float: a finite value (every finite float is a rational), an infinity
  (\<open>Infinity True\<close> is \<open>+inf\<close>, \<open>Infinity False\<close> is \<open>-inf\<close>) or NaN.
\<close>

datatype pyfloat = Finite rat | Infinity bool | NaN

text \<open>
  Metadata values are the scalars a ChromaDB record may carry. A Python dict is an
  association list with distinct keys in insertion order; \<open>dict.update\<close> overwrites the
  value of a key that is present and appends one that is not.
\<close>

datatype mvalue = MStr string | MInt int | MFloat pyfloat | MBool bool

type_synonym metadata = "(string \<times> mvalue) list"

definition dict_update :: "metadata \<Rightarrow> metadata \<Rightarrow> metadata" where
  "dict_update d new = fold (\<lambda>(k, v) acc. AList.update k v acc) new d"

definition dict_get :: "metadata \<Rightarrow> string \<Rightarrow> mvalue option" where
  "dict_get d k = map_of d k"

text \<open>\<open>int(x)\<close> for a float truncates towards zero and raises on an infinity or NaN.\<close>

fun int_of_pyfloat :: "pyfloat \<Rightarrow> exn + int" where
  "int_of_pyfloat (Finite q) = Inr (if 0 \<le> q then \<lfloor>q\<rfloor> else \<lceil>q\<rceil>)"
| "int_of_pyfloat (Infinity _) = Inl (OverflowError ''cannot convert float infinity to integer'')"
| "int_of_pyfloat NaN = Inl (OverflowError ''cannot convert float NaN to integer'')"

text \<open>
  The comparisons \<open><\<close> and \<open><=\<close> of floats: every comparison with NaN is false.
\<close>

fun float_lt :: "pyfloat \<Rightarrow> pyfloat \<Rightarrow> bool" where
  "float_lt (Finite a) (Finite b) = (a < b)"
| "float_lt (Finite a) (Infinity positive) = positive"
| "float_lt (Infinity positive) (Finite b) = (\<not> positive)"
| "float_lt (Infinity p) (Infinity q) = (\<not> p \<and> q)"
| "float_lt NaN _ = False"
| "float_lt _ NaN = False"

definition float_le :: "pyfloat \<Rightarrow> pyfloat \<Rightarrow> bool" where
  "float_le a b \<longleftrightarrow> float_lt a b \<or> (a \<noteq> NaN \<and> a = b)"

text \<open>Decimal rendering of an integer, as an f-string does it.\<close>

fun str_of_nat :: "nat \<Rightarrow> string" where
  "str_of_nat n =
     (if n < 10 then [''0123456789'' ! n]
      else str_of_nat (n div 10) @ [''0123456789'' ! (n mod 10)])"

declare str_of_nat.simps [simp del]

definition str_of_int :: "int \<Rightarrow> string" where
  "str_of_int i = (if i < 0 then CHR ''-'' # str_of_nat (nat (- i)) else str_of_nat (nat i))"

text \<open>Truthiness of an optional list: \<open>None\<close> and the empty list are falsy.\<close>

fun truthy :: "'a list option \<Rightarrow> bool" where
  "truthy None = False"
| "truthy (Some xs) = (xs \<noteq> [])"

section \<open>The ChromaDB collection\<close>

text \<open>
  The vector database is a third-party library, not code of the repository. The service
  uses five calls of a collection: \<open>add\<close>, \<open>get\<close>, \<open>delete\<close>, \<open>count\<close> and \<open>query\<close>.
  The first four are modelled on the stored records: a collection is the list of its
  records in insertion order, each with its id, document text and metadata. Any call may
  raise; \<open>fault\<close> says, per kind of call, whether it does and with which message.
  \<open>query\<close> ranks by embedding similarity, which is outside the program, so the service's
  \<open>search_documents\<close> takes the backend's query function as a parameter.
\<close>

datatype call = CAdd | CGet | CDelete | CCount

record entry =
  eid :: string
  document :: string
  emeta :: "metadata option"

record collection =
  entries :: "entry list"
  fault :: "call \<Rightarrow> string option"

text \<open>The result of \<open>collection.get\<close>: parallel lists of ids, documents and metadatas.\<close>

record get_result =
  g_ids :: "string list"
  g_documents :: "string list option"
  g_metadatas :: "metadata option list option"

definition project :: "entry list \<Rightarrow> get_result" where
  "project es = \<lparr>g_ids = map eid es, g_documents = Some (map document es),
                 g_metadatas = Some (map emeta es)\<rparr>"

text \<open>
  \<open>collection.add(documents=[d], metadatas=[m], ids=[i])\<close>: a record whose id is already
  in the collection is ignored, a new one is appended.
\<close>

definition coll_add :: "collection \<Rightarrow> string \<Rightarrow> metadata \<Rightarrow> string \<Rightarrow> exn + collection" where
  "coll_add c d m i =
     (case fault c CAdd of
        Some msg \<Rightarrow> Inl (BackendError msg)
      | None \<Rightarrow>
          if i \<in> set (map eid (entries c)) then Inr c
          else Inr (c\<lparr>entries := entries c @ [\<lparr>eid = i, document = d, emeta = Some m\<rparr>]\<rparr>))"

text \<open>
  \<open>collection.get(ids=..., limit=...)\<close>: the records with one of the given ids (all records
  when no ids are given), at most \<open>limit\<close> of them when a limit is given.
\<close>

definition coll_get :: "collection \<Rightarrow> string list option \<Rightarrow> nat option \<Rightarrow> exn + get_result" where
  "coll_get c ids limit =
     (case fault c CGet of
        Some msg \<Rightarrow> Inl (BackendError msg)
      | None \<Rightarrow>
          let sel = (case ids of None \<Rightarrow> entries c
                     | Some is \<Rightarrow> filter (\<lambda>e. eid e \<in> set is) (entries c));
              lim = (case limit of None \<Rightarrow> sel | Some n \<Rightarrow> take n sel)
          in Inr (project lim))"

definition coll_delete :: "collection \<Rightarrow> string list \<Rightarrow> exn + collection" where
  "coll_delete c ids =
     (case fault c CDelete of
        Some msg \<Rightarrow> Inl (BackendError msg)
      | None \<Rightarrow> Inr (c\<lparr>entries := filter (\<lambda>e. eid e \<notin> set ids) (entries c)\<rparr>))"

definition coll_count :: "collection \<Rightarrow> exn + nat" where
  "coll_count c =
     (case fault c CCount of
        Some msg \<Rightarrow> Inl (BackendError msg)
      | None \<Rightarrow> Inr (length (entries c)))"

section \<open>MemoryService\<close>

record memory_service =
  collection_name :: string
  client :: "string option"
  collection :: "collection option"
  initialized :: bool

text \<open>\<open>MemoryService.__init__\<close>.\<close>

definition init :: "string \<Rightarrow> memory_service" where
  "init name = \<lparr>collection_name = name, client = None, collection = None, initialized = False\<rparr>"

text \<open>
  \<open>_ensure_initialized\<close>: raises unless the flag is set and a collection is held; the
  model returns the collection the operations then use.
\<close>

definition not_initialized_msg :: string where
  "not_initialized_msg = ''Memory service not initialized. Call initialize() first.''"

definition ensure_initialized :: "memory_service \<Rightarrow> exn + collection" where
  "ensure_initialized s =
     (case collection s of
        None \<Rightarrow> Inl (RuntimeError not_initialized_msg)
      | Some c \<Rightarrow> if \<not> initialized s then Inl (RuntimeError not_initialized_msg) else Inr c)"

subsection \<open>initialize and close\<close>

text \<open>
  What \<open>initialize\<close> asks of its environment: creating the directory, opening the
  persistent client at that path, and getting or creating the named collection. Each may
  raise. A client is identified by the path it was opened at.
\<close>

record backend =
  mkdir :: "string \<Rightarrow> exn option"
  persistent_client :: "string \<Rightarrow> exn option"
  get_or_create_collection :: "string \<Rightarrow> string \<Rightarrow> exn + collection"

text \<open>
  \<open>initialize\<close> returns the exception it raised, if any, and the service as the call left
  it: the client is assigned before the collection is opened.
\<close>

definition initialize :: "backend \<Rightarrow> memory_service \<Rightarrow> string option \<Rightarrow> exn option \<times> memory_service" where
  "initialize be s db_path =
     (if initialized s then (None, s)
      else
        let p = (case db_path of None \<Rightarrow> ''data/chroma'' | Some p \<Rightarrow> p) in
        (case mkdir be p of
           Some e \<Rightarrow> (Some e, s)
         | None \<Rightarrow>
             (case persistent_client be p of
                Some e \<Rightarrow> (Some e, s)
              | None \<Rightarrow>
                  (case get_or_create_collection be p (collection_name s) of
                     Inl e \<Rightarrow> (Some e, s\<lparr>client := Some p\<rparr>)
                   | Inr c \<Rightarrow>
                       (None, s\<lparr>client := Some p, collection := Some c,
                                 initialized := True\<rparr>)))))"

definition close :: "memory_service \<Rightarrow> memory_service" where
  "close s =
     (if client s \<noteq> None
      then s\<lparr>collection := None, client := None, initialized := False\<rparr>
      else s)"

subsection \<open>store_document\<close>

text \<open>
  The result dict of \<open>store_document\<close>: the success dict with \<open>stored = True\<close>, or the
  failure dict with the error message and the attempted id.
\<close>

datatype store_result =
  Stored string nat mvalue metadata
| NotStored string string

text \<open>
  The clock and the digest are read from the environment: \<open>md5_hexdigest\<close> is
  \<open>hashlib.md5(content.encode()).hexdigest()\<close>, \<open>timestamp\<close> is
  \<open>int(datetime.now().timestamp())\<close> and \<open>created_at\<close> is \<open>datetime.now().isoformat()\<close>.
  The lookup \<open>doc_metadata["created_at"]\<close> for the result is inside the \<open>try\<close>, after
  the record was added.
\<close>

definition store_document ::
  "(string \<Rightarrow> string) \<Rightarrow> int \<Rightarrow> string \<Rightarrow> memory_service \<Rightarrow> string \<Rightarrow> string option \<Rightarrow>
   metadata option \<Rightarrow> exn + (store_result \<times> memory_service)" where
  "store_document md5_hexdigest timestamp created_at s content doc_id metadata =
     (case ensure_initialized s of
        Inl e \<Rightarrow> Inl e
      | Inr c \<Rightarrow>
          let doc_id' = (case doc_id of
                           None \<Rightarrow> ''doc_'' @ take 8 (md5_hexdigest content) @ ''_'' @ str_of_int timestamp
                         | Some i \<Rightarrow> i);
              doc_metadata = dict_update (case metadata of None \<Rightarrow> [] | Some m \<Rightarrow> m)
                               [(''created_at'', MStr created_at),
                                (''content_length'', MInt (int (length content)))];
              embedding_content = (if length content > 8000 then take 8000 content else content)
          in (case coll_add c embedding_content doc_metadata doc_id' of
                Inl e \<Rightarrow> Inr (NotStored (str_exn e) doc_id', s)
              | Inr c' \<Rightarrow>
                  (case dict_get doc_metadata ''created_at'' of
                     None \<Rightarrow> Inr (NotStored ([CHR 0x27] @ ''created_at'' @ [CHR 0x27]) doc_id',
                                 s\<lparr>collection := Some c'\<rparr>)
                   | Some ts \<Rightarrow>
                       Inr (Stored doc_id' (length content) ts doc_metadata,
                            s\<lparr>collection := Some c'\<rparr>))))"

subsection \<open>get_document\<close>

record document_data =
  d_doc_id :: string
  d_content :: string
  d_metadata :: "metadata option"

text \<open>
  The body of the \<open>try\<close> block of \<open>get_document\<close>, on the backend's answer: a result is
  built only when the documents list is non-empty and its first document is truthy, that
  is a non-empty string.
\<close>

definition get_document_body :: "string \<Rightarrow> get_result \<Rightarrow> document_data option" where
  "get_document_body doc_id results =
     (case g_documents results of
        Some (d # _) \<Rightarrow>
          if d \<noteq> []
          then Some \<lparr>d_doc_id = doc_id, d_content = d,
                     d_metadata = (case g_metadatas results of
                                     Some (m # _) \<Rightarrow> m
                                   | _ \<Rightarrow> Some [])\<rparr>
          else None
      | _ \<Rightarrow> None)"

definition get_document :: "memory_service \<Rightarrow> string \<Rightarrow> exn + document_data option" where
  "get_document s doc_id =
     (case ensure_initialized s of
        Inl e \<Rightarrow> Inl e
      | Inr c \<Rightarrow>
          (case coll_get c (Some [doc_id]) None of
             Inr results \<Rightarrow> Inr (get_document_body doc_id results)
           | Inl e \<Rightarrow> Inr None))"

subsection \<open>delete_document\<close>

definition delete_document :: "memory_service \<Rightarrow> string \<Rightarrow> exn + (bool \<times> memory_service)" where
  "delete_document s doc_id =
     (case ensure_initialized s of
        Inl e \<Rightarrow> Inl e
      | Inr c \<Rightarrow>
          (case coll_delete c [doc_id] of
             Inr c' \<Rightarrow> Inr (True, s\<lparr>collection := Some c'\<rparr>)
           | Inl e \<Rightarrow> Inr (False, s)))"

subsection \<open>search_documents\<close>

text \<open>
  The answer of \<open>collection.query\<close> for one query text: lists nested one level deeper than
  those of \<open>get\<close>. Distances are floats.
\<close>

record query_result =
  q_ids :: "string list list"
  q_documents :: "string list list option"
  q_distances :: "pyfloat list list option"
  q_metadatas :: "metadata option list list option"

record search_hit =
  h_doc_id :: "string option"
  h_content :: string
  h_content_preview :: string
  h_metadata :: "metadata option"
  h_distance :: pyfloat

text \<open>\<open>x[0] if x and x[0] else []\<close>.\<close>

fun first_or_empty :: "'a list list option \<Rightarrow> 'a list" where
  "first_or_empty (Some (x # _)) = x"
| "first_or_empty _ = []"

text \<open>
  The loop over \<open>enumerate(docs_list)\<close>: \<open>distances_list[i]\<close> raises when the distances
  are fewer than the documents; ids and metadatas have defaults.
\<close>

fun format_hits ::
  "string list \<Rightarrow> pyfloat list \<Rightarrow> metadata option list \<Rightarrow> nat \<Rightarrow> string list \<Rightarrow> exn + search_hit list" where
  "format_hits ids_list distances_list metadatas_list i [] = Inr []"
| "format_hits ids_list distances_list metadatas_list i (doc # docs) =
     (if i < length distances_list
      then
        (case format_hits ids_list distances_list metadatas_list (Suc i) docs of
           Inl e \<Rightarrow> Inl e
         | Inr rest \<Rightarrow>
             Inr (\<lparr>h_doc_id = (if i < length ids_list then Some (ids_list ! i) else None),
                    h_content = doc,
                    h_content_preview = (if length doc > 200 then take 200 doc @ ''...'' else doc),
                    h_metadata = (if i < length metadatas_list then metadatas_list ! i else Some []),
                    h_distance = distances_list ! i\<rparr> # rest))
      else Inl (IndexError ''list index out of range''))"

text \<open>The hits in the order the backend returned them, before the sort.\<close>

definition backend_hits :: "query_result \<Rightarrow> exn + search_hit list" where
  "backend_hits results =
     (if first_or_empty (q_documents results) \<noteq> []
      then format_hits (first_or_empty (Some (q_ids results)))
             (first_or_empty (q_distances results))
             (first_or_empty (q_metadatas results)) 0
             (first_or_empty (q_documents results))
      else Inr [])"

text \<open>
  \<open>sorted(documents, key=...)\<close> compares the keys with \<open><\<close> only. The model is the sort of
  CPython's \<open>list.sort\<close> as it runs on fewer than 64 elements: \<open>count_run\<close> finds the run
  at the start of the list, non-descending or strictly descending, a descending run is
  reversed, and \<open>binarysort\<close> inserts each remaining element into the sorted prefix at the
  place a binary search finds, after the elements that are not greater. On longer lists
  CPython merges several such runs; when all keys are comparable that gives the same
  list, the stable sort, so the model is exact on every list whose keys hold no NaN and
  on every list of fewer than 64 elements.
\<close>

fun ascending_run :: "('a \<Rightarrow> pyfloat) \<Rightarrow> 'a \<Rightarrow> 'a list \<Rightarrow> nat" where
  "ascending_run key prev [] = 0"
| "ascending_run key prev (x # xs) =
     (if float_lt (key x) (key prev) then 0 else Suc (ascending_run key x xs))"

fun descending_run :: "('a \<Rightarrow> pyfloat) \<Rightarrow> 'a \<Rightarrow> 'a list \<Rightarrow> nat" where
  "descending_run key prev [] = 0"
| "descending_run key prev (x # xs) =
     (if float_lt (key x) (key prev) then Suc (descending_run key x xs) else 0)"

text \<open>The length of the run at the start of the list, and whether it is descending.\<close>

fun count_run :: "('a \<Rightarrow> pyfloat) \<Rightarrow> 'a list \<Rightarrow> nat \<times> bool" where
  "count_run key [] = (0, False)"
| "count_run key [x] = (1, False)"
| "count_run key (x # y # ys) =
     (if float_lt (key y) (key x) then (2 + descending_run key y ys, True)
      else (2 + ascending_run key y ys, False))"

text \<open>
  The binary search of \<open>binarysort\<close> for the place of \<open>pivot\<close> in \<open>xs\<close>, between the
  indices \<open>l\<close> and \<open>r\<close>; it is called with \<open>r\<close> the length of \<open>xs\<close>.
\<close>

function bisect :: "('a \<Rightarrow> pyfloat) \<Rightarrow> 'a \<Rightarrow> 'a list \<Rightarrow> nat \<Rightarrow> nat \<Rightarrow> nat" where
  "bisect key pivot xs l r =
     (if l < r \<and> r \<le> length xs
      then
        (let p = l + (r - l) div 2
         in if float_lt (key pivot) (key (xs ! p)) then bisect key pivot xs l p
            else bisect key pivot xs (p + 1) r)
      else l)"
  by pat_completeness auto
termination
  by (relation "measure (\<lambda>(key, pivot, xs, l, r). r - l)") auto

declare bisect.simps [simp del]

fun binarysort :: "('a \<Rightarrow> pyfloat) \<Rightarrow> 'a list \<Rightarrow> 'a list \<Rightarrow> 'a list" where
  "binarysort key run [] = run"
| "binarysort key run (pivot # rest) =
     (let l = bisect key pivot run 0 (length run)
      in binarysort key (take l run @ pivot # drop l run) rest)"

definition py_sorted :: "('a \<Rightarrow> pyfloat) \<Rightarrow> 'a list \<Rightarrow> 'a list" where
  "py_sorted key xs =
     (if length xs < 2 then xs
      else
        (case count_run key xs of
           (n, descending) \<Rightarrow>
             binarysort key (if descending then rev (take n xs) else take n xs) (drop n xs)))"

definition search_body :: "query_result \<Rightarrow> exn + search_hit list" where
  "search_body results =
     (case backend_hits results of
        Inl e \<Rightarrow> Inl e
      | Inr documents \<Rightarrow> Inr (py_sorted h_distance documents))"

definition search_documents ::
  "(collection \<Rightarrow> string \<Rightarrow> int \<Rightarrow> metadata option \<Rightarrow> exn + query_result) \<Rightarrow>
   memory_service \<Rightarrow> string \<Rightarrow> int \<Rightarrow> metadata option \<Rightarrow> exn + search_hit list" where
  "search_documents collection_query s query limit metadata_filter =
     (case ensure_initialized s of
        Inl e \<Rightarrow> Inl e
      | Inr c \<Rightarrow>
          (case collection_query c query limit metadata_filter of
             Inl e \<Rightarrow> Inr []
           | Inr results \<Rightarrow>
               (case search_body results of
                  Inl e \<Rightarrow> Inr []
                | Inr documents \<Rightarrow> Inr documents)))"

subsection \<open>get_collection_stats\<close>

record stats =
  st_collection_name :: string
  st_total_documents :: nat
  st_total_content_length :: int
  st_avg_content_length :: int
  st_initialized :: bool
  st_error :: "string option"

text \<open>
  One round of the loop over the sampled metadatas: a truthy metadata with a
  \<open>content_length\<close> that is an int, a bool (a subclass of int) or a float adds \<open>int\<close> of
  it to the total.
\<close>

definition add_content_length :: "metadata option \<Rightarrow> int \<Rightarrow> exn + int" where
  "add_content_length m total_length =
     (case m of
        None \<Rightarrow> Inr total_length
      | Some md \<Rightarrow>
          if md = [] then Inr total_length
          else
            (case dict_get md ''content_length'' of
               None \<Rightarrow> Inr total_length
             | Some (MInt n) \<Rightarrow> Inr (total_length + n)
             | Some (MBool b) \<Rightarrow> Inr (total_length + (if b then 1 else 0))
             | Some (MFloat x) \<Rightarrow>
                 (case int_of_pyfloat x of
                    Inl e \<Rightarrow> Inl e
                  | Inr n \<Rightarrow> Inr (total_length + n))
             | Some (MStr _) \<Rightarrow> Inr total_length))"

fun sum_content_length :: "metadata option list \<Rightarrow> int \<Rightarrow> exn + int" where
  "sum_content_length [] total_length = Inr total_length"
| "sum_content_length (m # ms) total_length =
     (case add_content_length m total_length of
        Inl e \<Rightarrow> Inl e
      | Inr t \<Rightarrow> sum_content_length ms t)"

definition stats_body :: "memory_service \<Rightarrow> collection \<Rightarrow> exn + stats" where
  "stats_body s c =
     (case coll_count c of
        Inl e \<Rightarrow> Inl e
      | Inr count \<Rightarrow>
          (case coll_get c None (Some (min 100 count)) of
             Inl e \<Rightarrow> Inl e
           | Inr sample_results \<Rightarrow>
               (case (if truthy (g_metadatas sample_results)
                      then sum_content_length (the (g_metadatas sample_results)) 0
                      else Inr 0) of
                  Inl e \<Rightarrow> Inl e
                | Inr total_length \<Rightarrow>
                    Inr \<lparr>st_collection_name = collection_name s,
                         st_total_documents = count,
                         st_total_content_length = total_length,
                         st_avg_content_length =
                           (if truthy (g_metadatas sample_results)
                            then total_length div int (length (the (g_metadatas sample_results)))
                            else 0),
                         st_initialized = initialized s,
                         st_error = None\<rparr>)))"

definition get_collection_stats :: "memory_service \<Rightarrow> exn + stats" where
  "get_collection_stats s =
     (case ensure_initialized s of
        Inl e \<Rightarrow> Inl e
      | Inr c \<Rightarrow>
          (case stats_body s c of
             Inr r \<Rightarrow> Inr r
           | Inl e \<Rightarrow>
               Inr \<lparr>st_collection_name = collection_name s,
                    st_total_documents = 0,
                    st_total_content_length = 0,
                    st_avg_content_length = 0,
                    st_initialized = initialized s,
                    st_error = Some (str_exn e)\<rparr>))"

subsection \<open>cleanup_old_documents\<close>

datatype cleanup_result =
  Cleaned nat string int
| CleanupFailed string

text \<open>
  The test of the loop: a truthy metadata with a \<open>created_at\<close> that is a string and
  compares below the cutoff string. Python compares strings lexicographically.
\<close>

definition is_old :: "string \<Rightarrow> metadata option \<Rightarrow> bool" where
  "is_old cutoff_iso m =
     (case m of
        None \<Rightarrow> False
      | Some md \<Rightarrow>
          md \<noteq> [] \<and>
          (case dict_get md ''created_at'' of
             Some (MStr created_at) \<Rightarrow> created_at < cutoff_iso
           | _ \<Rightarrow> False))"

text \<open>The loop over \<open>enumerate(metadatas_list)\<close>, appending \<open>ids_list[i]\<close>.\<close>

fun collect_old ::
  "string \<Rightarrow> string list \<Rightarrow> nat \<Rightarrow> metadata option list \<Rightarrow> string list \<Rightarrow> exn + string list" where
  "collect_old cutoff_iso ids_list i [] old_doc_ids = Inr old_doc_ids"
| "collect_old cutoff_iso ids_list i (m # ms) old_doc_ids =
     (if is_old cutoff_iso m
      then
        (if i < length ids_list
         then collect_old cutoff_iso ids_list (Suc i) ms (old_doc_ids @ [ids_list ! i])
         else Inl (IndexError ''list index out of range''))
      else collect_old cutoff_iso ids_list (Suc i) ms old_doc_ids)"

text \<open>
  \<open>cutoff_isoformat d\<close> is \<open>(datetime.now() - timedelta(days=d)).isoformat()\<close>, read from
  the environment; the date arithmetic raises when it leaves the range of \<open>datetime\<close>.
\<close>

definition cleanup_body ::
  "(int \<Rightarrow> exn + string) \<Rightarrow> memory_service \<Rightarrow> collection \<Rightarrow> int \<Rightarrow> exn + (cleanup_result \<times> memory_service)" where
  "cleanup_body cutoff_isoformat s c max_age_days =
     (case cutoff_isoformat max_age_days of
        Inl e \<Rightarrow> Inl e
      | Inr cutoff_iso \<Rightarrow>
          (case coll_get c None None of
             Inl e \<Rightarrow> Inl e
           | Inr all_docs \<Rightarrow>
               (case (if truthy (g_metadatas all_docs)
                      then collect_old cutoff_iso (g_ids all_docs) 0 (the (g_metadatas all_docs)) []
                      else Inr []) of
                  Inl e \<Rightarrow> Inl e
                | Inr old_doc_ids \<Rightarrow>
                    if old_doc_ids \<noteq> []
                    then
                      (case coll_delete c old_doc_ids of
                         Inl e \<Rightarrow> Inl e
                       | Inr c' \<Rightarrow>
                           Inr (Cleaned (length old_doc_ids) cutoff_iso max_age_days,
                                s\<lparr>collection := Some c'\<rparr>))
                    else Inr (Cleaned (length old_doc_ids) cutoff_iso max_age_days, s))))"

definition cleanup_old_documents ::
  "(int \<Rightarrow> exn + string) \<Rightarrow> memory_service \<Rightarrow> int \<Rightarrow> exn + (cleanup_result \<times> memory_service)" where
  "cleanup_old_documents cutoff_isoformat s max_age_days =
     (case ensure_initialized s of
        Inl e \<Rightarrow> Inl e
      | Inr c \<Rightarrow>
          (case cleanup_body cutoff_isoformat s c max_age_days of
             Inr r \<Rightarrow> Inr r
           | Inl e \<Rightarrow> Inr (CleanupFailed (str_exn e), s)))"

section \<open>Concrete stores\<close>

text \<open>
  A backend on which every call succeeds, and one whose \<open>get\<close> raises; a client
  environment that opens the collection \<open>c\<close>; a service that has been initialized on \<open>c\<close>.
\<close>

definition no_fault :: "call \<Rightarrow> string option" where
  "no_fault = (\<lambda>_. None)"

definition get_fault :: "call \<Rightarrow> string option" where
  "get_fault = (\<lambda>k. if k = CGet then Some ''disk I/O error'' else None)"

definition opens :: "collection \<Rightarrow> backend" where
  "opens c = \<lparr>mkdir = (\<lambda>_. None), persistent_client = (\<lambda>_. None),
              get_or_create_collection = (\<lambda>_ _. Inr c)\<rparr>"

definition ready :: "collection \<Rightarrow> memory_service" where
  "ready c = \<lparr>collection_name = ''learning_data'', client = Some ''data/chroma'',
              collection = Some c, initialized = True\<rparr>"

definition record_of :: "string \<Rightarrow> string \<Rightarrow> metadata \<Rightarrow> entry" where
  "record_of i d m = \<lparr>eid = i, document = d, emeta = Some m\<rparr>"

text \<open>
  The shape of the strings \<open>datetime.isoformat()\<close> writes into \<open>created_at\<close>:
  \<open>YYYY-MM-DDTHH:MM:SS\<close>, followed by \<open>.ffffff\<close> when the microseconds are not zero.
  In a pattern, \<open>d\<close> stands for a decimal digit and every other character for itself.
\<close>

fun matches :: "string \<Rightarrow> string \<Rightarrow> bool" where
  "matches [] [] = True"
| "matches (p # ps) (x # xs) =
     ((if p = CHR ''d'' then x \<in> set ''0123456789'' else x = p) \<and> matches ps xs)"
| "matches _ _ = False"

definition is_isoformat :: "string \<Rightarrow> bool" where
  "is_isoformat x \<longleftrightarrow>
     matches ''dddd-dd-ddTdd:dd:dd'' x \<or> matches ''dddd-dd-ddTdd:dd:dd.dddddd'' x"

text \<open>
  Every service built by \<open>__init__\<close> and changed only through the methods holds a client
  whenever its flag is set.
\<close>

definition client_held :: "memory_service \<Rightarrow> bool" where
  "client_held s \<longleftrightarrow> (initialized s \<longrightarrow> client s \<noteq> None)"

text \<open>
  An answer of the backend's \<open>query\<close> with three hits, two of them at the same distance,
  one with a NaN among its distances, and the hit the service builds for a short document
  without metadata.
\<close>

definition three_hits :: query_result where
  "three_hits = \<lparr>q_ids = [[''a'', ''b'', ''c'']],
                 q_documents = Some [[''alpha'', ''beta'', ''gamma'']],
                 q_distances = Some [[Finite 0.5, Finite 0.2, Finite 0.5]],
                 q_metadatas = Some [[None, None, None]]\<rparr>"

definition nan_hits :: query_result where
  "nan_hits = \<lparr>q_ids = [[''a'', ''b'', ''c'']],
               q_documents = Some [[''alpha'', ''beta'', ''gamma'']],
               q_distances = Some [[Finite 0.5, NaN, Finite 0.2]],
               q_metadatas = Some [[None, None, None]]\<rparr>"

definition hit :: "string \<Rightarrow> string \<Rightarrow> pyfloat \<Rightarrow> search_hit" where
  "hit i d x = \<lparr>h_doc_id = Some i, h_content = d, h_content_preview = d, h_metadata = None,
               h_distance = x\<rparr>"

text \<open>The records \<open>0\<close>, ..., \<open>n - 1\<close>, each with a content length of 4.\<close>

definition numbered :: "nat \<Rightarrow> entry list" where
  "numbered n = map (\<lambda>j. record_of (str_of_nat j) ''text'' [(''content_length'', MInt 4)]) [0..<n]"

text \<open>
  A collection with a record without \<open>created_at\<close>, one whose \<open>created_at\<close> is an
  integer, one created in 2020 and one created in June 2025; and what is left of it after
  a cleanup with the cutoff at the start of 2025.
\<close>

definition shelf :: collection where
  "shelf = \<lparr>entries =
      [record_of ''n1'' ''alpha'' [(''source'', MStr ''rss'')],
       record_of ''n2'' ''beta'' [(''created_at'', MInt 20200101)],
       record_of ''n3'' ''gamma'' [(''created_at'', MStr ''2020-01-01T00:00:00'')],
       record_of ''n4'' ''delta'' [(''created_at'', MStr ''2025-06-01T12:00:00.000001'')]],
     fault = no_fault\<rparr>"

definition shelf_cleaned :: collection where
  "shelf_cleaned = \<lparr>entries =
      [record_of ''n1'' ''alpha'' [(''source'', MStr ''rss'')],
       record_of ''n2'' ''beta'' [(''created_at'', MInt 20200101)],
       record_of ''n4'' ''delta'' [(''created_at'', MStr ''2025-06-01T12:00:00.000001'')]],
     fault = no_fault\<rparr>"

section \<open>Basic facts\<close>

lemma dict_get_update:
  "dict_get (dict_update d [(k1, v1), (k2, v2)]) k =
     (if k = k2 then Some v2 else if k = k1 then Some v1 else dict_get d k)"
  by (simp add: dict_get_def dict_update_def update_conv')

lemma ensure_initialized_Inr:
  "ensure_initialized s = Inr c \<longleftrightarrow> initialized s \<and> collection s = Some c"
  by (auto simp: ensure_initialized_def split: option.splits)

lemma ensure_initialized_collection_update:
  "ensure_initialized s = Inr c \<Longrightarrow> ensure_initialized (s\<lparr>collection := Some c'\<rparr>) = Inr c'"
  by (simp add: ensure_initialized_Inr)

lemma ensure_ready: "ensure_initialized (ready c) = Inr c"
  by (simp add: ensure_initialized_def ready_def)

lemma coll_get_fresh_add:
  assumes "i \<notin> set (map eid (entries c))" "fault c CGet = None"
  shows "coll_get (c\<lparr>entries := entries c @ [\<lparr>eid = i, document = d, emeta = m\<rparr>]\<rparr>) (Some [i]) None
         = Inr \<lparr>g_ids = [i], g_documents = Some [d], g_metadatas = Some [m]\<rparr>"
proof -
  have "filter (\<lambda>e. eid e = i) (entries c) = []"
    using assms(1) by (auto simp: filter_empty_conv)
  then show ?thesis
    using assms(2) by (simp add: coll_get_def project_def)
qed

text \<open>What a success dict of \<open>store_document\<close> says about the call.\<close>

lemma store_document_Stored:
  assumes "store_document md5 ts now s content doc_id metadata = Inr (Stored i n t m, s')"
  shows "\<exists>c. ensure_initialized s = Inr c \<and> fault c CAdd = None \<and>
             i = (case doc_id of None \<Rightarrow> ''doc_'' @ take 8 (md5 content) @ ''_'' @ str_of_int ts | Some j \<Rightarrow> j) \<and>
             m = dict_update (case metadata of None \<Rightarrow> [] | Some x \<Rightarrow> x)
                   [(''created_at'', MStr now), (''content_length'', MInt (int (length content)))] \<and>
             n = length content \<and> t = MStr now \<and>
             s' = s\<lparr>collection := Some (if i \<in> set (map eid (entries c)) then c
                     else c\<lparr>entries := entries c @ [\<lparr>eid = i, document = take 8000 content, emeta = Some m\<rparr>]\<rparr>)\<rparr>"
  using assms
  by (auto simp: store_document_def Let_def coll_add_def dict_get_update
      split: sum.splits option.splits if_splits)

section \<open>Store and get\<close>

text \<open>
  C1, as the code has it. After a successful \<open>store_document\<close> of a non-empty content
  under an id that was not yet in the collection, \<open>get_document\<close> on the returned id
  (the backend's \<open>get\<close> not failing) returns the first 8000 characters of the content,
  which is the whole content when it has at most 8000 characters, and the stored
  metadata: \<open>created_at\<close> and \<open>content_length\<close> as the system set them, and every other
  entry of the caller's metadata unchanged.
\<close>

theorem store_get_roundtrip:
  assumes init: "ensure_initialized s = Inr c"
    and st: "store_document md5 ts now s content doc_id metadata = Inr (Stored i n t m, s')"
    and fresh: "i \<notin> set (map eid (entries c))"
    and get_ok: "fault c CGet = None"
    and nonempty: "content \<noteq> []"
  shows "get_document s' i =
           Inr (Some \<lparr>d_doc_id = i, d_content = take 8000 content, d_metadata = Some m\<rparr>) \<and>
         dict_get m ''created_at'' = Some (MStr now) \<and>
         dict_get m ''content_length'' = Some (MInt (int (length content))) \<and>
         (\<forall>k v. dict_get (case metadata of None \<Rightarrow> [] | Some x \<Rightarrow> x) k = Some v \<longrightarrow>
                k \<noteq> ''created_at'' \<longrightarrow> k \<noteq> ''content_length'' \<longrightarrow> dict_get m k = Some v)"
proof -
  from store_document_Stored [OF st] init fresh
  have m: "m = dict_update (case metadata of None \<Rightarrow> [] | Some x \<Rightarrow> x)
                 [(''created_at'', MStr now), (''content_length'', MInt (int (length content)))]"
    and s': "s' = s\<lparr>collection := Some (c\<lparr>entries := entries c @
                   [\<lparr>eid = i, document = take 8000 content, emeta = Some m\<rparr>]\<rparr>)\<rparr>"
    by auto
  have "ensure_initialized s' =
          Inr (c\<lparr>entries := entries c @ [\<lparr>eid = i, document = take 8000 content, emeta = Some m\<rparr>]\<rparr>)"
    unfolding s' by (rule ensure_initialized_collection_update [OF init])
  moreover have "take 8000 content \<noteq> []"
    using nonempty by simp
  ultimately have "get_document s' i =
      Inr (Some \<lparr>d_doc_id = i, d_content = take 8000 content, d_metadata = Some m\<rparr>)"
    using coll_get_fresh_add [OF fresh get_ok, of "take 8000 content" "Some m"]
    by (simp add: get_document_def get_document_body_def)
  then show ?thesis
    by (simp add: m dict_get_update)
qed

theorem store_get_roundtrip_witness:
  "store_document (\<lambda>_. ''9f2c01d47aa0e3b5'') 1700000000 ''2025-03-01T09:30:00.000125''
       (ready \<lparr>entries = [], fault = no_fault\<rparr>) ''Breaking news: markets rally'' None
       (Some [(''source'', MStr ''rss'')])
   = Inr (Stored ''doc_9f2c01d4_1700000000'' 28 (MStr ''2025-03-01T09:30:00.000125'')
            [(''source'', MStr ''rss''), (''created_at'', MStr ''2025-03-01T09:30:00.000125''),
             (''content_length'', MInt 28)],
          ready \<lparr>entries = [record_of ''doc_9f2c01d4_1700000000'' ''Breaking news: markets rally''
            [(''source'', MStr ''rss''), (''created_at'', MStr ''2025-03-01T09:30:00.000125''),
             (''content_length'', MInt 28)]], fault = no_fault\<rparr>) \<and>
   get_document
     (ready \<lparr>entries = [record_of ''doc_9f2c01d4_1700000000'' ''Breaking news: markets rally''
            [(''source'', MStr ''rss''), (''created_at'', MStr ''2025-03-01T09:30:00.000125''),
             (''content_length'', MInt 28)]], fault = no_fault\<rparr>)
     ''doc_9f2c01d4_1700000000''
   = Inr (Some \<lparr>d_doc_id = ''doc_9f2c01d4_1700000000'',
                d_content = ''Breaking news: markets rally'',
                d_metadata = Some [(''source'', MStr ''rss''),
                  (''created_at'', MStr ''2025-03-01T09:30:00.000125''),
                  (''content_length'', MInt 28)]\<rparr>)"
proof -
  have st: "store_document (\<lambda>_. ''9f2c01d47aa0e3b5'') 1700000000 ''2025-03-01T09:30:00.000125''
       (ready \<lparr>entries = [], fault = no_fault\<rparr>) ''Breaking news: markets rally'' None
       (Some [(''source'', MStr ''rss'')])
   = Inr (Stored ''doc_9f2c01d4_1700000000'' 28 (MStr ''2025-03-01T09:30:00.000125'')
            [(''source'', MStr ''rss''), (''created_at'', MStr ''2025-03-01T09:30:00.000125''),
             (''content_length'', MInt 28)],
          ready \<lparr>entries = [record_of ''doc_9f2c01d4_1700000000'' ''Breaking news: markets rally''
            [(''source'', MStr ''rss''), (''created_at'', MStr ''2025-03-01T09:30:00.000125''),
             (''content_length'', MInt 28)]], fault = no_fault\<rparr>)"
    by (simp add: store_document_def Let_def ensure_initialized_def coll_add_def no_fault_def
        dict_update_def dict_get_def str_of_int_def str_of_nat.simps record_of_def ready_def)
  have fresh: "''doc_9f2c01d4_1700000000'' \<notin> set (map eid (entries \<lparr>entries = [], fault = no_fault\<rparr>))"
    by simp
  have ok: "fault \<lparr>entries = [], fault = no_fault\<rparr> CGet = None"
    by (simp add: no_fault_def)
  have ne: "''Breaking news: markets rally'' \<noteq> []"
    by simp
  from store_get_roundtrip [OF ensure_ready st fresh ok ne] st
  show ?thesis by simp
qed

text \<open>
  C1 as stated fails on a content of 8001 characters: the store succeeds and reports
  the length 8001, and \<open>get_document\<close> returns 8000 characters.
\<close>

theorem store_get_roundtrip_counterexample:
  "store_document (\<lambda>_. ''9f2c01d47aa0e3b5'') 1700000000 ''2025-03-01T09:30:00''
       (ready \<lparr>entries = [], fault = no_fault\<rparr>) (replicate 8001 (CHR ''a'')) None None
   = Inr (Stored ''doc_9f2c01d4_1700000000'' 8001 (MStr ''2025-03-01T09:30:00'')
            [(''created_at'', MStr ''2025-03-01T09:30:00''), (''content_length'', MInt 8001)],
          ready \<lparr>entries = [record_of ''doc_9f2c01d4_1700000000'' (replicate 8000 (CHR ''a''))
            [(''created_at'', MStr ''2025-03-01T09:30:00''), (''content_length'', MInt 8001)]],
            fault = no_fault\<rparr>) \<and>
   get_document
     (ready \<lparr>entries = [record_of ''doc_9f2c01d4_1700000000'' (replicate 8000 (CHR ''a''))
            [(''created_at'', MStr ''2025-03-01T09:30:00''), (''content_length'', MInt 8001)]],
            fault = no_fault\<rparr>)
     ''doc_9f2c01d4_1700000000''
   = Inr (Some \<lparr>d_doc_id = ''doc_9f2c01d4_1700000000'',
                d_content = replicate 8000 (CHR ''a''),
                d_metadata = Some [(''created_at'', MStr ''2025-03-01T09:30:00''),
                                   (''content_length'', MInt 8001)]\<rparr>) \<and>
   replicate 8000 (CHR ''a'') \<noteq> replicate 8001 (CHR ''a'')"
  by (simp add: store_document_def get_document_def get_document_body_def coll_get_def
      project_def Let_def ensure_initialized_def coll_add_def no_fault_def dict_update_def
      dict_get_def str_of_int_def str_of_nat.simps record_of_def ready_def)

text \<open>
  C9. A document stored with the empty string as content, under an id that was not yet
  in the collection, is reported as absent: \<open>get_document\<close> on its id returns \<open>None\<close>.
\<close>

theorem get_document_empty_content_not_found:
  assumes init: "ensure_initialized s = Inr c"
    and st: "store_document md5 ts now s [] doc_id metadata = Inr (Stored i n t m, s')"
    and fresh: "i \<notin> set (map eid (entries c))"
  shows "get_document s' i = Inr None"
proof -
  from store_document_Stored [OF st] init fresh
  have s': "s' = s\<lparr>collection := Some (c\<lparr>entries := entries c @
                   [\<lparr>eid = i, document = [], emeta = Some m\<rparr>]\<rparr>)\<rparr>"
    by auto
  have ens: "ensure_initialized s' =
          Inr (c\<lparr>entries := entries c @ [\<lparr>eid = i, document = [], emeta = Some m\<rparr>]\<rparr>)"
    unfolding s' by (rule ensure_initialized_collection_update [OF init])
  show ?thesis
  proof (cases "fault c CGet")
    case None
    from coll_get_fresh_add [OF fresh None, of "[]" "Some m"] ens show ?thesis
      by (simp add: get_document_def get_document_body_def)
  next
    case (Some msg)
    with ens show ?thesis
      by (simp add: get_document_def coll_get_def)
  qed
qed

theorem get_document_empty_content_not_found_witness:
  "store_document (\<lambda>_. ''d41d8cd98f00b204'') 1700000000 ''2025-03-01T09:30:00''
       (ready \<lparr>entries = [], fault = no_fault\<rparr>) [] (Some ''empty-note'') None
   = Inr (Stored ''empty-note'' 0 (MStr ''2025-03-01T09:30:00'')
            [(''created_at'', MStr ''2025-03-01T09:30:00''), (''content_length'', MInt 0)],
          ready \<lparr>entries = [record_of ''empty-note'' []
            [(''created_at'', MStr ''2025-03-01T09:30:00''), (''content_length'', MInt 0)]],
            fault = no_fault\<rparr>) \<and>
   get_document
     (ready \<lparr>entries = [record_of ''empty-note'' []
            [(''created_at'', MStr ''2025-03-01T09:30:00''), (''content_length'', MInt 0)]],
            fault = no_fault\<rparr>)
     ''empty-note'' = Inr None"
proof -
  have st: "store_document (\<lambda>_. ''d41d8cd98f00b204'') 1700000000 ''2025-03-01T09:30:00''
       (ready \<lparr>entries = [], fault = no_fault\<rparr>) [] (Some ''empty-note'') None
   = Inr (Stored ''empty-note'' 0 (MStr ''2025-03-01T09:30:00'')
            [(''created_at'', MStr ''2025-03-01T09:30:00''), (''content_length'', MInt 0)],
          ready \<lparr>entries = [record_of ''empty-note'' []
            [(''created_at'', MStr ''2025-03-01T09:30:00''), (''content_length'', MInt 0)]],
            fault = no_fault\<rparr>)"
    by (simp add: store_document_def Let_def ensure_initialized_def coll_add_def no_fault_def
        dict_update_def dict_get_def record_of_def ready_def)
  have fresh: "''empty-note'' \<notin> set (map eid (entries \<lparr>entries = [], fault = no_fault\<rparr>))"
    by simp
  from get_document_empty_content_not_found [OF ensure_ready st fresh] st
  show ?thesis by simp
qed




section \<open>Absence and backend failure in get_document\<close>

lemma coll_get_missing:
  assumes "i \<notin> set (map eid (entries c))" "fault c CGet = None"
  shows "coll_get c (Some [i]) None = Inr \<lparr>g_ids = [], g_documents = Some [], g_metadatas = Some []\<rparr>"
proof -
  have "filter (\<lambda>e. eid e = i) (entries c) = []"
    using assms(1) by (auto simp: filter_empty_conv)
  then show ?thesis
    using assms(2) by (simp add: coll_get_def project_def)
qed

text \<open>
  C2, as the code has it. On an initialized store, \<open>get_document\<close> returns \<open>None\<close> for an
  id that is not in the collection, and it returns \<open>None\<close> as well when the backend's
  \<open>get\<close> raises: the error is logged and no detail of it reaches the result.
\<close>

theorem get_document_absent_or_failed:
  assumes init: "ensure_initialized s = Inr c"
  shows "(fault c CGet = None \<longrightarrow> doc_id \<notin> set (map eid (entries c)) \<longrightarrow>
            get_document s doc_id = Inr None) \<and>
         (\<forall>msg. fault c CGet = Some msg \<longrightarrow> get_document s doc_id = Inr None)"
proof (intro conjI impI allI)
  assume "fault c CGet = None" "doc_id \<notin> set (map eid (entries c))"
  from coll_get_missing [OF this(2) this(1)] init
  show "get_document s doc_id = Inr None"
    by (simp add: get_document_def get_document_body_def)
next
  fix msg assume "fault c CGet = Some msg"
  with init show "get_document s doc_id = Inr None"
    by (simp add: get_document_def coll_get_def)
qed

theorem get_document_absent_or_failed_witness:
  "get_document (ready \<lparr>entries = [record_of ''n1'' ''note'' []], fault = no_fault\<rparr>) ''n2'' = Inr None \<and>
   get_document (ready \<lparr>entries = [record_of ''n1'' ''note'' []], fault = get_fault\<rparr>) ''n1'' = Inr None"
proof -
  have a: "fault \<lparr>entries = [record_of ''n1'' ''note'' []], fault = no_fault\<rparr> CGet = None"
    by (simp add: no_fault_def)
  have b: "''n2'' \<notin> set (map eid (entries \<lparr>entries = [record_of ''n1'' ''note'' []], fault = no_fault\<rparr>))"
    by (simp add: record_of_def)
  have c: "fault \<lparr>entries = [record_of ''n1'' ''note'' []], fault = get_fault\<rparr> CGet = Some ''disk I/O error''"
    by (simp add: get_fault_def)
  from get_document_absent_or_failed [OF ensure_ready, of _ "''n2''"] a b
  have "get_document (ready \<lparr>entries = [record_of ''n1'' ''note'' []], fault = no_fault\<rparr>) ''n2'' = Inr None"
    by blast
  moreover from get_document_absent_or_failed [OF ensure_ready, of _ "''n1''"] c
  have "get_document (ready \<lparr>entries = [record_of ''n1'' ''note'' []], fault = get_fault\<rparr>) ''n1'' = Inr None"
    by blast
  ultimately show ?thesis by simp
qed

text \<open>
  C2 as stated fails: the result of a lookup during which the backend raised equals the
  result of a lookup of an id that is absent, so no caller can tell them apart.
\<close>

theorem get_document_distinguishes_counterexample:
  "get_document (ready \<lparr>entries = [record_of ''n1'' ''note'' []], fault = get_fault\<rparr>) ''n1''
   = get_document (ready \<lparr>entries = [], fault = no_fault\<rparr>) ''n1''"
  by (simp add: get_document_def get_document_body_def coll_get_def project_def
      ensure_initialized_def ready_def get_fault_def no_fault_def)

section \<open>The lifecycle\<close>

text \<open>\<open>client_held\<close> holds of a new service and is kept by every method.\<close>

lemma ensure_initialized_close:
  "client_held s \<Longrightarrow> ensure_initialized (close s) = Inl (RuntimeError not_initialized_msg)"
  by (auto simp: client_held_def close_def ensure_initialized_def split: option.splits)

lemma client_held_init: "client_held (init name)"
  by (simp add: client_held_def init_def)

lemma client_held_initialize: "client_held s \<Longrightarrow> client_held (snd (initialize be s p))"
  by (auto simp: client_held_def initialize_def Let_def split: option.splits sum.splits)

lemma client_held_close: "client_held s \<Longrightarrow> client_held (close s)"
  by (auto simp: client_held_def close_def)

lemma client_held_collection_update: "client_held s \<Longrightarrow> client_held (s\<lparr>collection := x\<rparr>)"
  by (simp add: client_held_def)

lemma client_held_ready: "client_held (ready c)"
  by (simp add: client_held_def ready_def)

text \<open>
  C3, as the code has it. After \<open>close\<close>, each of \<open>store_document\<close>, \<open>search_documents\<close>,
  \<open>get_document\<close>, \<open>delete_document\<close>, \<open>get_collection_stats\<close> and
  \<open>cleanup_old_documents\<close> raises the not-initialized \<open>RuntimeError\<close>; and a later
  \<open>initialize\<close> whose backend calls succeed opens the store again, on the collection the
  backend returned.
\<close>

theorem close_until_initialize:
  assumes "client_held s"
  shows "store_document digest ts now (close s) content doc_id metadata = Inl (RuntimeError not_initialized_msg) \<and>
         search_documents q (close s) query limit flt = Inl (RuntimeError not_initialized_msg) \<and>
         get_document (close s) i = Inl (RuntimeError not_initialized_msg) \<and>
         delete_document (close s) i = Inl (RuntimeError not_initialized_msg) \<and>
         get_collection_stats (close s) = Inl (RuntimeError not_initialized_msg) \<and>
         cleanup_old_documents cutoff (close s) days = Inl (RuntimeError not_initialized_msg) \<and>
         (\<forall>c. mkdir be p = None \<longrightarrow> persistent_client be p = None \<longrightarrow>
              get_or_create_collection be p (collection_name s) = Inr c \<longrightarrow>
              fst (initialize be (close s) (Some p)) = None \<and>
              ensure_initialized (snd (initialize be (close s) (Some p))) = Inr c)"
proof -
  note e = ensure_initialized_close [OF assms]
  have "\<not> initialized (close s)" "collection_name (close s) = collection_name s"
    using assms by (auto simp: close_def client_held_def)
  then have "fst (initialize be (close s) (Some p)) = None \<and>
             ensure_initialized (snd (initialize be (close s) (Some p))) = Inr c"
    if "mkdir be p = None" "persistent_client be p = None"
       "get_or_create_collection be p (collection_name s) = Inr c" for c
    using that by (simp add: initialize_def ensure_initialized_def)
  then show ?thesis
    using e
    by (simp add: store_document_def search_documents_def get_document_def delete_document_def
        get_collection_stats_def cleanup_old_documents_def)
qed

theorem close_until_initialize_witness:
  "client_held (ready \<lparr>entries = [record_of ''n1'' ''note'' []], fault = no_fault\<rparr>) \<and>
   store_document (\<lambda>_. ''9f2c01d47aa0e3b5'') 1700000000 ''2025-03-01T09:30:00''
     (close (ready \<lparr>entries = [record_of ''n1'' ''note'' []], fault = no_fault\<rparr>)) ''text'' None None
     = Inl (RuntimeError not_initialized_msg) \<and>
   search_documents (\<lambda>_ _ _ _. Inr \<lparr>q_ids = [[]], q_documents = Some [[]],
        q_distances = Some [[]], q_metadatas = Some [[]]\<rparr>)
     (close (ready \<lparr>entries = [record_of ''n1'' ''note'' []], fault = no_fault\<rparr>)) ''note'' 10 None
     = Inl (RuntimeError not_initialized_msg) \<and>
   get_document (close (ready \<lparr>entries = [record_of ''n1'' ''note'' []], fault = no_fault\<rparr>)) ''n1''
     = Inl (RuntimeError not_initialized_msg) \<and>
   delete_document (close (ready \<lparr>entries = [record_of ''n1'' ''note'' []], fault = no_fault\<rparr>)) ''n1''
     = Inl (RuntimeError not_initialized_msg) \<and>
   get_collection_stats (close (ready \<lparr>entries = [record_of ''n1'' ''note'' []], fault = no_fault\<rparr>))
     = Inl (RuntimeError not_initialized_msg) \<and>
   cleanup_old_documents (\<lambda>_. Inr ''2025-01-01T00:00:00'')
     (close (ready \<lparr>entries = [record_of ''n1'' ''note'' []], fault = no_fault\<rparr>)) 90
     = Inl (RuntimeError not_initialized_msg) \<and>
   ensure_initialized
     (snd (initialize (opens \<lparr>entries = [record_of ''n1'' ''note'' []], fault = no_fault\<rparr>)
        (close (ready \<lparr>entries = [record_of ''n1'' ''note'' []], fault = no_fault\<rparr>))
        (Some ''data/chroma'')))
     = Inr \<lparr>entries = [record_of ''n1'' ''note'' []], fault = no_fault\<rparr>"
proof -
  have a: "mkdir (opens \<lparr>entries = [record_of ''n1'' ''note'' []], fault = no_fault\<rparr>) ''data/chroma'' = None"
    "persistent_client (opens \<lparr>entries = [record_of ''n1'' ''note'' []], fault = no_fault\<rparr>) ''data/chroma'' = None"
    "get_or_create_collection (opens \<lparr>entries = [record_of ''n1'' ''note'' []], fault = no_fault\<rparr>) ''data/chroma''
       (collection_name (ready \<lparr>entries = [record_of ''n1'' ''note'' []], fault = no_fault\<rparr>))
     = Inr \<lparr>entries = [record_of ''n1'' ''note'' []], fault = no_fault\<rparr>"
    by (simp_all add: opens_def)
  have h: "client_held (ready \<lparr>entries = [record_of ''n1'' ''note'' []], fault = no_fault\<rparr>)"
    by (rule client_held_ready)
  from close_until_initialize [where s = "ready \<lparr>entries = [record_of ''n1'' ''note'' []], fault = no_fault\<rparr>"
      and i = "''n1''" and p = "''data/chroma''"
      and be = "opens \<lparr>entries = [record_of ''n1'' ''note'' []], fault = no_fault\<rparr>"
      and digest = "\<lambda>_. ''9f2c01d47aa0e3b5''" and ts = 1700000000 and now = "''2025-03-01T09:30:00''"
      and content = "''text''" and doc_id = None and metadata = None
      and q = "\<lambda>_ _ _ _. Inr \<lparr>q_ids = [[]], q_documents = Some [[]],
        q_distances = Some [[]], q_metadatas = Some [[]]\<rparr>"
      and query = "''note''" and limit = 10 and flt = None
      and cutoff = "\<lambda>_. Inr ''2025-01-01T00:00:00''" and days = 90, OF h] a h
  show ?thesis
    by simp
qed

text \<open>
  C3 as stated fails: \<open>initialize\<close> after \<open>close\<close> sets the flag again, and a document
  of the collection is then returned by \<open>get_document\<close>.
\<close>

theorem close_is_terminal_counterexample:
  "fst (initialize (opens \<lparr>entries = [record_of ''n1'' ''note'' []], fault = no_fault\<rparr>)
        (close (ready \<lparr>entries = [record_of ''n1'' ''note'' []], fault = no_fault\<rparr>)) None) = None \<and>
   initialized (snd (initialize (opens \<lparr>entries = [record_of ''n1'' ''note'' []], fault = no_fault\<rparr>)
        (close (ready \<lparr>entries = [record_of ''n1'' ''note'' []], fault = no_fault\<rparr>)) None)) \<and>
   get_document (snd (initialize (opens \<lparr>entries = [record_of ''n1'' ''note'' []], fault = no_fault\<rparr>)
        (close (ready \<lparr>entries = [record_of ''n1'' ''note'' []], fault = no_fault\<rparr>)) None)) ''n1''
     = Inr (Some \<lparr>d_doc_id = ''n1'', d_content = ''note'', d_metadata = Some []\<rparr>)"
  by (simp add: initialize_def close_def ready_def opens_def get_document_def
      get_document_body_def coll_get_def project_def ensure_initialized_def no_fault_def
      record_of_def)

section \<open>The sort\<close>

text \<open>
  On keys without NaN the comparison is a linear order, and \<open>py_sorted\<close> returns the
  elements sorted by key, those of equal key in their original order.
\<close>

lemma float_lt_trans: "float_lt a b \<Longrightarrow> float_lt b c \<Longrightarrow> float_lt a c"
  by (cases a; cases b; cases c) auto

lemma float_lt_irrefl [simp]: "\<not> float_lt a a"
  by (cases a) auto

lemma float_lt_total: "a \<noteq> NaN \<Longrightarrow> b \<noteq> NaN \<Longrightarrow> float_lt a b \<or> a = b \<or> float_lt b a"
  by (cases a; cases b) auto

lemma float_lt_asym: "float_lt a b \<Longrightarrow> \<not> float_lt b a"
  using float_lt_trans float_lt_irrefl by blast

lemma float_le_iff: "a \<noteq> NaN \<Longrightarrow> b \<noteq> NaN \<Longrightarrow> float_le a b \<longleftrightarrow> \<not> float_lt b a"
  using float_lt_total float_lt_asym by (auto simp: float_le_def)

lemma float_le_trans: "float_le a b \<Longrightarrow> float_le b c \<Longrightarrow> float_le a c"
  using float_lt_trans by (auto simp: float_le_def)

lemma float_lt_le_trans: "float_lt a b \<Longrightarrow> float_le b c \<Longrightarrow> float_lt a c"
  using float_lt_trans by (auto simp: float_le_def)

lemma float_le_lt_trans: "float_le a b \<Longrightarrow> float_lt b c \<Longrightarrow> float_lt a c"
  using float_lt_trans by (auto simp: float_le_def)

lemma bisect_bounds: "l \<le> r \<Longrightarrow> l \<le> bisect key pivot xs l r \<and> bisect key pivot xs l r \<le> r"
proof (induction key pivot xs l r rule: bisect.induct)
  case (1 key pivot xs l r)
  show ?case
  proof (cases "l < r \<and> r \<le> length xs")
    case False
    have "bisect key pivot xs l r = l"
      by (subst bisect.simps) (rule if_not_P [OF False])
    with "1.prems" show ?thesis by simp
  next
    case True
    define p where "p = l + (r - l) div 2"
    have p: "l \<le> p" "p < r" using True by (auto simp: p_def)
    show ?thesis
    proof (cases "float_lt (key pivot) (key (xs ! p))")
      case lt: True
      from "1.IH"(1) [OF True p_def lt] p have "l \<le> bisect key pivot xs l p \<and> bisect key pivot xs l p \<le> p"
        by simp
      moreover have "bisect key pivot xs l r = bisect key pivot xs l p"
        using True lt by (subst bisect.simps) (simp add: p_def Let_def)
      ultimately show ?thesis using p by simp
    next
      case ge: False
      from "1.IH"(2) [OF True p_def ge] p
      have "p + 1 \<le> bisect key pivot xs (p + 1) r \<and> bisect key pivot xs (p + 1) r \<le> r"
        by simp
      moreover have "bisect key pivot xs l r = bisect key pivot xs (p + 1) r"
        using True ge by (subst bisect.simps) (simp add: p_def Let_def)
      ultimately show ?thesis using p by simp
    qed
  qed
qed

lemma bisect_spec:
  assumes "sorted_wrt (\<lambda>x y. float_le (key x) (key y)) xs"
    and "\<forall>x \<in> set xs. key x \<noteq> NaN" "key pivot \<noteq> NaN"
    and "l \<le> r" "r \<le> length xs"
    and "\<forall>i < l. \<not> float_lt (key pivot) (key (xs ! i))"
    and "\<forall>i. r \<le> i \<and> i < length xs \<longrightarrow> float_lt (key pivot) (key (xs ! i))"
  shows "(\<forall>i < bisect key pivot xs l r. \<not> float_lt (key pivot) (key (xs ! i))) \<and>
         (\<forall>i. bisect key pivot xs l r \<le> i \<and> i < length xs \<longrightarrow> float_lt (key pivot) (key (xs ! i)))"
  using assms
proof (induction key pivot xs l r rule: bisect.induct)
  case (1 key pivot xs l r)
  note srt = "1.prems"(1) and nn = "1.prems"(2,3)
  have le: "float_le (key (xs ! i)) (key (xs ! j))" if "i \<le> j" "j < length xs" for i j
  proof (cases "i = j")
    case True
    with that nn show ?thesis by (simp add: float_le_def)
  next
    case False
    with that srt show ?thesis by (simp add: sorted_wrt_iff_nth_less)
  qed
  show ?case
  proof (cases "l < r \<and> r \<le> length xs")
    case False
    with "1.prems" have "l = r" by simp
    with "1.prems" False show ?thesis by (simp add: bisect.simps)
  next
    case True
    define p where "p = l + (r - l) div 2"
    have p: "l \<le> p" "p < r" "p < length xs" using True by (auto simp: p_def)
    show ?thesis
    proof (cases "float_lt (key pivot) (key (xs ! p))")
      case lt: True
      have "\<forall>i. p \<le> i \<and> i < length xs \<longrightarrow> float_lt (key pivot) (key (xs ! i))"
        using lt le float_lt_le_trans by blast
      from "1.IH"(1) [OF True p_def lt srt nn(1) nn(2) p(1) _ "1.prems"(6) this] p
      have "(\<forall>i < bisect key pivot xs l p. \<not> float_lt (key pivot) (key (xs ! i))) \<and>
         (\<forall>i. bisect key pivot xs l p \<le> i \<and> i < length xs \<longrightarrow> float_lt (key pivot) (key (xs ! i)))"
        by simp
      moreover have "bisect key pivot xs l r = bisect key pivot xs l p"
        using True lt by (subst bisect.simps) (simp add: p_def Let_def)
      ultimately show ?thesis by simp
    next
      case ge: False
      have "\<forall>i < p + 1. \<not> float_lt (key pivot) (key (xs ! i))"
      proof (intro allI impI notI)
        fix i assume "i < p + 1" "float_lt (key pivot) (key (xs ! i))"
        then have "float_lt (key pivot) (key (xs ! p))"
          using le [of i p] p float_lt_le_trans by auto
        with ge show False ..
      qed
      from "1.IH"(2) [OF True p_def ge srt nn(1) nn(2) _ "1.prems"(5) this "1.prems"(7)] p
      have "(\<forall>i < bisect key pivot xs (p + 1) r. \<not> float_lt (key pivot) (key (xs ! i))) \<and>
         (\<forall>i. bisect key pivot xs (p + 1) r \<le> i \<and> i < length xs \<longrightarrow> float_lt (key pivot) (key (xs ! i)))"
        by simp
      moreover have "bisect key pivot xs l r = bisect key pivot xs (p + 1) r"
        using True ge by (subst bisect.simps) (simp add: p_def Let_def)
      ultimately show ?thesis by simp
    qed
  qed
qed

lemma bisect_before:
  assumes srt: "sorted_wrt (\<lambda>x y. float_le (key x) (key y)) xs"
    and nn: "\<forall>x \<in> set xs. key x \<noteq> NaN" "key pivot \<noteq> NaN"
    and x: "x \<in> set (take (bisect key pivot xs 0 (length xs)) xs)"
  shows "float_le (key x) (key pivot)"
proof -
  define l where "l = bisect key pivot xs 0 (length xs)"
  have p6: "\<forall>i < 0::nat. \<not> float_lt (key pivot) (key (xs ! i))" by simp
  have p7: "\<forall>i. length xs \<le> i \<and> i < length xs \<longrightarrow> float_lt (key pivot) (key (xs ! i))"
  proof (intro allI impI)
    fix i assume "length xs \<le> i \<and> i < length xs"
    then have False by linarith
    then show "float_lt (key pivot) (key (xs ! i))" ..
  qed
  have low: "\<forall>i < l. \<not> float_lt (key pivot) (key (xs ! i))"
    unfolding l_def by (rule conjunct1 [OF bisect_spec [OF srt nn le0 order_refl p6 p7]])
  from x obtain i where i: "i < length (take l xs)" "take l xs ! i = x"
    unfolding in_set_conv_nth l_def by blast
  from i(1) have il: "i < l" "i < length xs" by simp_all
  from i(2) il have xi: "x = xs ! i" by simp
  from il have "xs ! i \<in> set xs" by simp
  with nn have k: "key (xs ! i) \<noteq> NaN" by blast
  from low il have "\<not> float_lt (key pivot) (key (xs ! i))" by blast
  then have "float_le (key (xs ! i)) (key pivot)"
    using float_le_iff [OF k nn(2)] by blast
  then show ?thesis
    by (simp only: xi)
qed

lemma bisect_after:
  assumes srt: "sorted_wrt (\<lambda>x y. float_le (key x) (key y)) xs"
    and nn: "\<forall>x \<in> set xs. key x \<noteq> NaN" "key pivot \<noteq> NaN"
    and x: "x \<in> set (drop (bisect key pivot xs 0 (length xs)) xs)"
  shows "float_lt (key pivot) (key x)"
proof -
  define l where "l = bisect key pivot xs 0 (length xs)"
  have p6: "\<forall>i < 0::nat. \<not> float_lt (key pivot) (key (xs ! i))" by simp
  have p7: "\<forall>i. length xs \<le> i \<and> i < length xs \<longrightarrow> float_lt (key pivot) (key (xs ! i))"
  proof (intro allI impI)
    fix i assume "length xs \<le> i \<and> i < length xs"
    then have False by linarith
    then show "float_lt (key pivot) (key (xs ! i))" ..
  qed
  have high: "\<forall>i. l \<le> i \<and> i < length xs \<longrightarrow> float_lt (key pivot) (key (xs ! i))"
    unfolding l_def by (rule conjunct2 [OF bisect_spec [OF srt nn le0 order_refl p6 p7]])
  have l: "l \<le> length xs"
    using bisect_bounds [of 0 "length xs" key pivot xs] by (simp add: l_def)
  from x obtain j where j: "j < length (drop l xs)" "drop l xs ! j = x"
    unfolding in_set_conv_nth l_def by blast
  from j(1) have "l + j < length xs" by simp
  moreover from j(2) l have "xs ! (l + j) = x" by simp
  ultimately show ?thesis
    using high by (metis le_add1)
qed

lemma insert_sorted:
  assumes srt: "sorted_wrt (\<lambda>x y. float_le (key x) (key y)) xs"
    and nn: "\<forall>x \<in> set xs. key x \<noteq> NaN" "key pivot \<noteq> NaN"
  shows "sorted_wrt (\<lambda>x y. float_le (key x) (key y))
           (take (bisect key pivot xs 0 (length xs)) xs @ pivot # drop (bisect key pivot xs 0 (length xs)) xs)"
proof -
  define l where "l = bisect key pivot xs 0 (length xs)"
  have "sorted_wrt (\<lambda>x y. float_le (key x) (key y)) (take l xs @ drop l xs)"
    using srt by simp
  then have s1: "sorted_wrt (\<lambda>x y. float_le (key x) (key y)) (take l xs)"
    and s2: "sorted_wrt (\<lambda>x y. float_le (key x) (key y)) (drop l xs)"
    and s3: "\<forall>x \<in> set (take l xs). \<forall>y \<in> set (drop l xs). float_le (key x) (key y)"
    unfolding sorted_wrt_append by blast+
  have b: "\<forall>x \<in> set (take l xs). float_le (key x) (key pivot)"
    using bisect_before [OF srt nn] unfolding l_def by blast
  have a: "\<forall>x \<in> set (drop l xs). float_le (key pivot) (key x)"
    using bisect_after [OF srt nn] unfolding l_def float_le_def by blast
  have "sorted_wrt (\<lambda>x y. float_le (key x) (key y)) (pivot # drop l xs)"
    using a s2 by simp
  moreover have "\<forall>x \<in> set (take l xs). \<forall>y \<in> set (pivot # drop l xs). float_le (key x) (key y)"
    using b s3 by simp
  ultimately have "sorted_wrt (\<lambda>x y. float_le (key x) (key y)) (take l xs @ pivot # drop l xs)"
    using s1 unfolding sorted_wrt_append by blast
  then show ?thesis unfolding l_def .
qed

lemma insert_filter:
  assumes srt: "sorted_wrt (\<lambda>x y. float_le (key x) (key y)) xs"
    and nn: "\<forall>x \<in> set xs. key x \<noteq> NaN" "key pivot \<noteq> NaN"
  shows "filter (\<lambda>x. key x = k)
           (take (bisect key pivot xs 0 (length xs)) xs @ pivot # drop (bisect key pivot xs 0 (length xs)) xs)
         = filter (\<lambda>x. key x = k) (xs @ [pivot])"
proof -
  define l where "l = bisect key pivot xs 0 (length xs)"
  have d: "filter (\<lambda>x. key x = key pivot) (drop l xs) = []"
    unfolding filter_empty_conv
  proof (intro ballI notI)
    fix x assume "x \<in> set (drop l xs)" "key x = key pivot"
    with bisect_after [OF srt nn, of x] show False
      unfolding l_def by simp
  qed
  have "filter (\<lambda>x. key x = k) (take l xs @ pivot # drop l xs)
      = filter (\<lambda>x. key x = k) (take l xs) @ filter (\<lambda>x. key x = k) (drop l xs)
        @ filter (\<lambda>x. key x = k) [pivot]"
  proof (cases "k = key pivot")
    case True
    with d show ?thesis by simp
  next
    case False
    then show ?thesis by simp
  qed
  also have "\<dots> = filter (\<lambda>x. key x = k) ((take l xs @ drop l xs) @ [pivot])"
    by (simp only: filter_append append_assoc)
  finally show ?thesis
    unfolding l_def by (simp only: append_take_drop_id)
qed

lemma binarysort_sorted_stable:
  assumes "sorted_wrt (\<lambda>x y. float_le (key x) (key y)) run"
    and "\<forall>x \<in> set run. key x \<noteq> NaN" "\<forall>x \<in> set rest. key x \<noteq> NaN"
  shows "sorted_wrt (\<lambda>x y. float_le (key x) (key y)) (binarysort key run rest) \<and>
         (\<forall>k. filter (\<lambda>x. key x = k) (binarysort key run rest) = filter (\<lambda>x. key x = k) (run @ rest))"
  using assms
proof (induction rest arbitrary: run)
  case Nil
  then show ?case by simp
next
  case (Cons pivot rest)
  define l where "l = bisect key pivot run 0 (length run)"
  define run' where "run' = take l run @ pivot # drop l run"
  from Cons.prems have nn: "\<forall>x \<in> set run. key x \<noteq> NaN" "key pivot \<noteq> NaN" "\<forall>x \<in> set rest. key x \<noteq> NaN"
    by simp_all
  have s: "sorted_wrt (\<lambda>x y. float_le (key x) (key y)) run'"
    unfolding run'_def l_def by (rule insert_sorted [OF Cons.prems(1) nn(1,2)])
  have f: "filter (\<lambda>x. key x = k) run' = filter (\<lambda>x. key x = k) (run @ [pivot])" for k
    unfolding run'_def l_def by (rule insert_filter [OF Cons.prems(1) nn(1,2)])
  have "set (take l run) \<union> set (drop l run) = set run"
    by (metis append_take_drop_id set_append)
  then have "set run' = insert pivot (set run)"
    unfolding run'_def by auto
  with nn have nn': "\<forall>x \<in> set run'. key x \<noteq> NaN" by simp
  from Cons.IH [OF s nn' nn(3)] f
  have "sorted_wrt (\<lambda>x y. float_le (key x) (key y)) (binarysort key run' rest) \<and>
         (\<forall>k. filter (\<lambda>x. key x = k) (binarysort key run' rest) = filter (\<lambda>x. key x = k) (run @ pivot # rest))"
    by simp
  then show ?case
    by (simp add: run'_def l_def Let_def)
qed

lemma set_binarysort: "set (binarysort key run rest) = set run \<union> set rest"
proof (induction rest arbitrary: run)
  case Nil
  then show ?case by simp
next
  case (Cons pivot rest)
  have "set (take l run @ pivot # drop l run) = insert pivot (set run)" for l
  proof -
    have "set (take l run) \<union> set (drop l run) = set run"
      by (metis append_take_drop_id set_append)
    then show ?thesis by auto
  qed
  with Cons.IH show ?case
    by (simp add: Let_def)
qed

lemma ascending_run_sorted:
  "\<forall>x \<in> set (prev # xs). key x \<noteq> NaN \<Longrightarrow>
     sorted_wrt (\<lambda>x y. float_le (key x) (key y)) (prev # take (ascending_run key prev xs) xs)"
proof (induction xs arbitrary: prev)
  case Nil
  then show ?case by simp
next
  case (Cons x xs)
  show ?case
  proof (cases "float_lt (key x) (key prev)")
    case True
    then show ?thesis by simp
  next
    case False
    from Cons.prems have nn: "key prev \<noteq> NaN" "key x \<noteq> NaN" "\<forall>y \<in> set (x # xs). key y \<noteq> NaN"
      by simp_all
    from False have px: "float_le (key prev) (key x)"
      using float_le_iff [OF nn(1,2)] by blast
    from Cons.IH [OF nn(3)]
    have s: "sorted_wrt (\<lambda>x y. float_le (key x) (key y)) (x # take (ascending_run key x xs) xs)" .
    then have "\<forall>y \<in> set (take (ascending_run key x xs) xs). float_le (key x) (key y)"
      by simp
    with px have "\<forall>y \<in> set (take (ascending_run key x xs) xs). float_le (key prev) (key y)"
      using float_le_trans by blast
    with px s False show ?thesis by simp
  qed
qed

lemma descending_run_sorted:
  "sorted_wrt (\<lambda>x y. float_lt (key y) (key x)) (prev # take (descending_run key prev xs) xs)"
proof (induction xs arbitrary: prev)
  case Nil
  then show ?case by simp
next
  case (Cons x xs)
  show ?case
  proof (cases "float_lt (key x) (key prev)")
    case False
    then show ?thesis by simp
  next
    case True
    from Cons.IH [of x]
    have s: "sorted_wrt (\<lambda>x y. float_lt (key y) (key x)) (x # take (descending_run key x xs) xs)" .
    then have "\<forall>y \<in> set (take (descending_run key x xs) xs). float_lt (key y) (key x)"
      by simp
    with True have "\<forall>y \<in> set (take (descending_run key x xs) xs). float_lt (key y) (key prev)"
      using float_lt_trans by blast
    with True s show ?thesis by simp
  qed
qed

lemma filter_rev_distinct_keys:
  "sorted_wrt (\<lambda>x y. key x \<noteq> key y) xs \<Longrightarrow>
     filter (\<lambda>x. key x = k) (rev xs) = filter (\<lambda>x. key x = k) xs"
proof (induction xs)
  case Nil
  then show ?case by simp
next
  case (Cons x xs)
  then have IH: "filter (\<lambda>x. key x = k) (rev xs) = filter (\<lambda>x. key x = k) xs"
    and d: "\<forall>y \<in> set xs. key x \<noteq> key y"
    by simp_all
  show ?case
  proof (cases "key x = k")
    case True
    with d have "filter (\<lambda>x. key x = k) xs = []"
      by (auto simp: filter_empty_conv)
    with True IH show ?thesis by simp
  next
    case False
    with IH show ?thesis by simp
  qed
qed

lemma set_py_sorted: "set (py_sorted key xs) = set xs"
proof (cases "length xs < 2")
  case True
  then show ?thesis by (simp add: py_sorted_def)
next
  case False
  obtain n d where c: "count_run key xs = (n, d)" by (cases "count_run key xs")
  have "set (take n xs) \<union> set (drop n xs) = set xs"
    by (metis append_take_drop_id set_append)
  with False c show ?thesis
    by (simp add: py_sorted_def set_binarysort)
qed

lemma py_sorted_sorted_stable:
  assumes nn: "\<forall>x \<in> set xs. key x \<noteq> NaN"
  shows "sorted_wrt (\<lambda>x y. float_le (key x) (key y)) (py_sorted key xs) \<and>
         (\<forall>k. filter (\<lambda>x. key x = k) (py_sorted key xs) = filter (\<lambda>x. key x = k) xs)"
proof (cases xs)
  case Nil
  then show ?thesis by (simp add: py_sorted_def)
next
  case (Cons x xs')
  show ?thesis
  proof (cases xs')
    case Nil
    with Cons show ?thesis by (simp add: py_sorted_def)
  next
    case (Cons y ys)
    with \<open>xs = x # xs'\<close> have xs: "xs = x # y # ys" by simp
    define n where "n = fst (count_run key xs)"
    define run where "run = (if snd (count_run key xs) then rev (take n xs) else take n xs)"
    have res: "py_sorted key xs = binarysort key run (drop n xs)"
      by (simp add: py_sorted_def xs run_def n_def split: prod.splits)
    have nn_run: "\<forall>x \<in> set run. key x \<noteq> NaN"
      using nn by (auto simp: run_def dest: in_set_takeD)
    have nn_rest: "\<forall>x \<in> set (drop n xs). key x \<noteq> NaN"
      using nn by (auto dest: in_set_dropD)
    have run_ok: "sorted_wrt (\<lambda>x y. float_le (key x) (key y)) run \<and>
                  (\<forall>k. filter (\<lambda>x. key x = k) run = filter (\<lambda>x. key x = k) (take n xs))"
    proof (cases "float_lt (key y) (key x)")
      case False
      then have "n = Suc (Suc (ascending_run key y ys))" "\<not> snd (count_run key xs)"
        by (simp_all add: n_def xs)
      then have r: "run = x # take (ascending_run key x (y # ys)) (y # ys)"
        using False by (simp add: run_def xs)
      from ascending_run_sorted [of x "y # ys" key] nn
      have "sorted_wrt (\<lambda>x y. float_le (key x) (key y)) run"
        unfolding r xs by simp
      moreover have "take n xs = run"
        using \<open>\<not> snd (count_run key xs)\<close> by (simp add: run_def)
      ultimately show ?thesis by simp
    next
      case True
      then have n: "n = Suc (Suc (descending_run key y ys))" and d: "snd (count_run key xs)"
        by (simp_all add: n_def xs)
      from n True have t: "take n xs = x # take (descending_run key x (y # ys)) (y # ys)"
        by (simp add: xs)
      from descending_run_sorted [of key x "y # ys"]
      have desc: "sorted_wrt (\<lambda>x y. float_lt (key y) (key x)) (take n xs)"
        unfolding t .
      from d have r: "run = rev (take n xs)" by (simp add: run_def)
      have "sorted_wrt (\<lambda>x y. float_lt (key x) (key y)) run"
        unfolding r sorted_wrt_rev using desc .
      then have "sorted_wrt (\<lambda>x y. float_le (key x) (key y)) run"
        by (rule sorted_wrt_mono_rel [rotated]) (simp add: float_le_def)
      moreover have "sorted_wrt (\<lambda>x y. key x \<noteq> key y) (take n xs)"
        using desc by (rule sorted_wrt_mono_rel [rotated]) auto
      then have "filter (\<lambda>x. key x = k) run = filter (\<lambda>x. key x = k) (take n xs)" for k
        unfolding r by (rule filter_rev_distinct_keys)
      ultimately show ?thesis by simp
    qed
    from binarysort_sorted_stable [OF conjunct1 [OF run_ok] nn_run nn_rest]
    have "sorted_wrt (\<lambda>x y. float_le (key x) (key y)) (py_sorted key xs)"
      and f: "\<And>k. filter (\<lambda>x. key x = k) (py_sorted key xs) = filter (\<lambda>x. key x = k) (run @ drop n xs)"
      unfolding res by simp_all
    moreover have "filter (\<lambda>x. key x = k) (run @ drop n xs) = filter (\<lambda>x. key x = k) xs" for k
    proof -
      have "filter (\<lambda>x. key x = k) (run @ drop n xs)
          = filter (\<lambda>x. key x = k) (take n xs) @ filter (\<lambda>x. key x = k) (drop n xs)"
        using run_ok by simp
      also have "\<dots> = filter (\<lambda>x. key x = k) (take n xs @ drop n xs)"
        by (simp only: filter_append)
      finally show ?thesis by (simp only: append_take_drop_id)
    qed
    ultimately show ?thesis by simp
  qed
qed

lemma py_sorted_Nil [simp]: "py_sorted key [] = []"
  by (simp add: py_sorted_def)

section \<open>Search\<close>

lemma format_hits_Inr:
  "format_hits ids ds ms i docs = Inr hits \<Longrightarrow>
     map h_content hits = docs \<and> map h_distance hits = take (length docs) (drop i ds)"
proof (induction docs arbitrary: i hits)
  case Nil
  then show ?case by simp
next
  case (Cons doc docs)
  from Cons.prems obtain rest where
    i: "i < length ds"
    and rest: "format_hits ids ds ms (Suc i) docs = Inr rest"
    and hits: "map h_content hits = doc # map h_content rest"
              "map h_distance hits = ds ! i # map h_distance rest"
    by (auto split: if_splits sum.splits)
  from Cons.IH [OF rest] have
    "map h_content rest = docs" "map h_distance rest = take (length docs) (drop (Suc i) ds)"
    by simp_all
  with hits i show ?case
    by (simp add: Cons_nth_drop_Suc [symmetric])
qed

lemma backend_hits_Inr:
  assumes "backend_hits results = Inr hits"
  shows "map h_content hits = first_or_empty (q_documents results) \<and>
         map h_distance hits =
           take (length (first_or_empty (q_documents results))) (first_or_empty (q_distances results))"
proof (cases "first_or_empty (q_documents results) = []")
  case True
  with assms show ?thesis by (simp add: backend_hits_def)
next
  case False
  with assms format_hits_Inr [of _ "first_or_empty (q_distances results)" _ 0] show ?thesis
    by (simp add: backend_hits_def)
qed

lemma search_documents_cases:
  assumes "ensure_initialized s = Inr c"
  shows "search_documents q s query limit flt =
           (case q c query limit flt of
              Inl e \<Rightarrow> Inr []
            | Inr results \<Rightarrow>
                (case backend_hits results of
                   Inl e \<Rightarrow> Inr []
                 | Inr hits \<Rightarrow> Inr (py_sorted h_distance hits)))"
  using assms by (simp add: search_documents_def search_body_def split: sum.splits)

lemma search_documents_Inr:
  assumes "search_documents q s query limit flt = Inr docs"
  shows "\<exists>c. ensure_initialized s = Inr c"
  using assms by (cases "ensure_initialized s") (simp_all add: search_documents_def)

text \<open>The list returned is empty or the sorted hits of the backend's answer.\<close>

lemma search_documents_result:
  assumes "search_documents q s query limit flt = Inr docs"
  shows "docs = [] \<or> (\<exists>hits. docs = py_sorted h_distance hits)"
proof -
  from search_documents_Inr [OF assms] obtain c where c: "ensure_initialized s = Inr c" ..
  from assms [unfolded search_documents_cases [OF c]] show ?thesis
    by (auto split: sum.splits)
qed

lemma search_three_hits:
  "search_documents (\<lambda>_ _ _ _. Inr three_hits) (ready \<lparr>entries = [], fault = no_fault\<rparr>) ''greek'' 10 None
     = Inr [hit ''b'' ''beta'' (Finite 0.2), hit ''a'' ''alpha'' (Finite 0.5),
            hit ''c'' ''gamma'' (Finite 0.5)]"
  by (simp add: search_documents_def search_body_def backend_hits_def three_hits_def hit_def
      ensure_ready py_sorted_def bisect.simps Let_def)

lemma backend_three_hits:
  "backend_hits three_hits
     = Inr [hit ''a'' ''alpha'' (Finite 0.5), hit ''b'' ''beta'' (Finite 0.2),
            hit ''c'' ''gamma'' (Finite 0.5)]"
  by (simp add: backend_hits_def three_hits_def hit_def)

text \<open>
  C6, as the code has it. The hits are the backend's documents, one for one and in
  order, with the distances at the same positions. When the list \<open>search_documents\<close>
  returns holds no NaN distance it is sorted by non-decreasing distance; and when no
  distance of the backend's hits is NaN, the results at each distance are the backend's
  hits at that distance in the backend's order.
\<close>

theorem search_documents_sorted_stable:
  assumes "search_documents q s query limit flt = Inr docs"
  shows "(NaN \<notin> set (map h_distance docs) \<longrightarrow> sorted_wrt float_le (map h_distance docs)) \<and>
         (\<forall>c results hits.
            ensure_initialized s = Inr c \<longrightarrow> q c query limit flt = Inr results \<longrightarrow>
            backend_hits results = Inr hits \<longrightarrow>
              map h_content hits = first_or_empty (q_documents results) \<and>
              map h_distance hits =
                take (length (first_or_empty (q_documents results)))
                  (first_or_empty (q_distances results)) \<and>
              (NaN \<notin> set (map h_distance hits) \<longrightarrow>
                 (\<forall>k. filter (\<lambda>h. h_distance h = k) docs = filter (\<lambda>h. h_distance h = k) hits)))"
proof -
  from search_documents_Inr [OF assms] obtain c where c: "ensure_initialized s = Inr c" ..
  note eq = assms [unfolded search_documents_cases [OF c]]
  have "sorted_wrt float_le (map h_distance docs)" if free: "NaN \<notin> set (map h_distance docs)"
  proof -
    from search_documents_result [OF assms] show ?thesis
    proof
      assume "docs = []"
      then show ?thesis by simp
    next
      assume "\<exists>hits. docs = py_sorted h_distance hits"
      then obtain hits where docs: "docs = py_sorted h_distance hits" ..
      from free have "NaN \<notin> h_distance ` set hits"
        unfolding docs by (simp add: set_py_sorted)
      then have "\<forall>h \<in> set hits. h_distance h \<noteq> NaN"
        by (metis imageI)
      from py_sorted_sorted_stable [OF this] show ?thesis
        unfolding docs by (simp add: sorted_wrt_map)
    qed
  qed
  moreover have "filter (\<lambda>h. h_distance h = k) docs = filter (\<lambda>h. h_distance h = k) hits"
    if "ensure_initialized s = Inr c'" "q c' query limit flt = Inr results"
       "backend_hits results = Inr hits" "NaN \<notin> set (map h_distance hits)"
    for c' results hits k
  proof -
    from that eq c have docs: "docs = py_sorted h_distance hits" by simp
    from that(4) have "NaN \<notin> h_distance ` set hits" by simp
    then have "\<forall>h \<in> set hits. h_distance h \<noteq> NaN"
      by (metis imageI)
    from py_sorted_sorted_stable [OF this] show ?thesis
      unfolding docs by blast
  qed
  ultimately show ?thesis
    using backend_hits_Inr by blast
qed

theorem search_documents_sorted_stable_witness:
  "search_documents (\<lambda>_ _ _ _. Inr three_hits) (ready \<lparr>entries = [], fault = no_fault\<rparr>) ''greek'' 10 None
     = Inr [hit ''b'' ''beta'' (Finite 0.2), hit ''a'' ''alpha'' (Finite 0.5),
            hit ''c'' ''gamma'' (Finite 0.5)] \<and>
   sorted_wrt float_le
     (map h_distance [hit ''b'' ''beta'' (Finite 0.2), hit ''a'' ''alpha'' (Finite 0.5),
                      hit ''c'' ''gamma'' (Finite 0.5)]) \<and>
   filter (\<lambda>h. h_distance h = Finite 0.5)
     [hit ''b'' ''beta'' (Finite 0.2), hit ''a'' ''alpha'' (Finite 0.5), hit ''c'' ''gamma'' (Finite 0.5)]
     = filter (\<lambda>h. h_distance h = Finite 0.5)
         [hit ''a'' ''alpha'' (Finite 0.5), hit ''b'' ''beta'' (Finite 0.2),
          hit ''c'' ''gamma'' (Finite 0.5)]"
proof -
  have free: "NaN \<notin> set (map h_distance [hit ''b'' ''beta'' (Finite 0.2),
      hit ''a'' ''alpha'' (Finite 0.5), hit ''c'' ''gamma'' (Finite 0.5)])"
    "NaN \<notin> set (map h_distance [hit ''a'' ''alpha'' (Finite 0.5),
      hit ''b'' ''beta'' (Finite 0.2), hit ''c'' ''gamma'' (Finite 0.5)])"
    by (simp_all add: hit_def)
  from search_documents_sorted_stable [OF search_three_hits] search_three_hits
    ensure_ready backend_three_hits free
  show ?thesis by blast
qed

text \<open>
  C6 as stated fails on a backend answer with the distances 0.5, NaN, 0.2: no
  comparison with NaN is true, so the sort finds one run and returns the hits as they
  came, 0.5 before 0.2.
\<close>

theorem search_documents_sorted_counterexample:
  "search_documents (\<lambda>_ _ _ _. Inr nan_hits) (ready \<lparr>entries = [], fault = no_fault\<rparr>) ''greek'' 10 None
     = Inr [hit ''a'' ''alpha'' (Finite 0.5), hit ''b'' ''beta'' NaN, hit ''c'' ''gamma'' (Finite 0.2)] \<and>
   \<not> sorted_wrt float_le
       (map h_distance [hit ''a'' ''alpha'' (Finite 0.5), hit ''b'' ''beta'' NaN,
                        hit ''c'' ''gamma'' (Finite 0.2)]) \<and>
   float_lt (Finite 0.2) (Finite 0.5)"
  by (simp add: search_documents_def search_body_def backend_hits_def nan_hits_def hit_def
      ensure_ready py_sorted_def float_le_def)

text \<open>
  C7. On an initialized store \<open>search_documents\<close> returns a list and never raises;
  the list is empty when the backend's query raises and when the backend's answer holds
  no document, as it does for an empty collection or a filter that nothing passes.
\<close>

theorem search_documents_best_effort:
  assumes "ensure_initialized s = Inr c"
  shows "(\<exists>docs. search_documents q s query limit flt = Inr docs) \<and>
         (\<forall>e. q c query limit flt = Inl e \<longrightarrow> search_documents q s query limit flt = Inr []) \<and>
         (\<forall>results. q c query limit flt = Inr results \<longrightarrow>
            first_or_empty (q_documents results) = [] \<longrightarrow>
            search_documents q s query limit flt = Inr [])"
  unfolding search_documents_cases [OF assms]
  by (auto simp: backend_hits_def split: sum.splits)

theorem search_documents_best_effort_witness:
  "search_documents (\<lambda>_ _ _ _. Inl (BackendError ''index unavailable'') :: exn + query_result)
     (ready \<lparr>entries = [], fault = no_fault\<rparr>) ''greek'' 10 None = Inr [] \<and>
   search_documents (\<lambda>_ _ _ _. Inr \<lparr>q_ids = [[]], q_documents = Some [[]],
        q_distances = Some [[]], q_metadatas = Some [[]]\<rparr>)
     (ready \<lparr>entries = [], fault = no_fault\<rparr>) ''greek'' 10 None = Inr []"
  using search_documents_best_effort [OF ensure_ready,
      where q = "\<lambda>_ _ _ _. Inl (BackendError ''index unavailable'') :: exn + query_result"]
    search_documents_best_effort [OF ensure_ready,
      where q = "\<lambda>_ _ _ _. Inr \<lparr>q_ids = [[]], q_documents = Some [[]],
        q_distances = Some [[]], q_metadatas = Some [[]]\<rparr>"]
  by simp


section \<open>Collection statistics\<close>

lemma stats_body_faulty:
  assumes "fault c CCount \<noteq> None \<or> fault c CGet \<noteq> None"
  shows "\<exists>e. stats_body s c = Inl e"
  using assms by (auto simp: stats_body_def coll_count_def coll_get_def split: option.splits)

lemma stats_body_healthy:
  assumes "fault c CCount = None" "fault c CGet = None"
  shows "stats_body s c =
           (case sum_content_length (map emeta (take 100 (entries c))) 0 of
              Inl e \<Rightarrow> Inl e
            | Inr total_length \<Rightarrow>
                Inr \<lparr>st_collection_name = collection_name s,
                     st_total_documents = length (entries c),
                     st_total_content_length = total_length,
                     st_avg_content_length =
                       (if take 100 (entries c) = [] then 0
                        else total_length div int (length (take 100 (entries c)))),
                     st_initialized = initialized s,
                     st_error = None\<rparr>)"
proof -
  have "take (min 100 (length (entries c))) (entries c) = take 100 (entries c)"
    by (simp add: min_def)
  then show ?thesis
    using assms
    by (auto simp: stats_body_def coll_count_def coll_get_def project_def Let_def
        split: sum.splits)
qed

lemma sum_content_length_ints:
  assumes "\<forall>m \<in> set ms. \<exists>md. m = Some md \<and> md \<noteq> [] \<and> dict_get md ''content_length'' = Some (MInt k)"
  shows "sum_content_length ms t = Inr (t + k * int (length ms))"
  using assms
  by (induction ms arbitrary: t) (auto simp: add_content_length_def algebra_simps)

lemma stats_numbered:
  "get_collection_stats (ready \<lparr>entries = numbered 150, fault = no_fault\<rparr>) =
     Inr \<lparr>st_collection_name = ''learning_data'', st_total_documents = 150,
          st_total_content_length = 400, st_avg_content_length = 4,
          st_initialized = True, st_error = None\<rparr>"
proof -
  have t: "take 100 (numbered 150) = numbered 100"
    by (simp add: numbered_def take_map)
  have "sum_content_length (map emeta (numbered 100)) 0 = Inr (0 + 4 * int (length (map emeta (numbered 100))))"
    by (rule sum_content_length_ints) (auto simp: numbered_def record_of_def dict_get_def)
  then have "sum_content_length (map emeta (numbered 100)) 0 = Inr 400"
    by (simp add: numbered_def)
  moreover have "numbered 100 \<noteq> []" "length (numbered 100) = 100" "length (numbered 150) = 150"
    by (simp_all add: numbered_def)
  ultimately have "stats_body (ready \<lparr>entries = numbered 150, fault = no_fault\<rparr>)
      \<lparr>entries = numbered 150, fault = no_fault\<rparr> =
     Inr \<lparr>st_collection_name = ''learning_data'', st_total_documents = 150,
          st_total_content_length = 400, st_avg_content_length = 4,
          st_initialized = True, st_error = None\<rparr>"
    by (simp add: stats_body_healthy no_fault_def t ready_def)
  then show ?thesis
    by (simp add: get_collection_stats_def ensure_ready)
qed

text \<open>
  C8. On an initialized store \<open>get_collection_stats\<close> returns a result. It reports no
  error exactly when the backend's \<open>count\<close> and \<open>get\<close> do not fail and the loop over the
  sampled metadatas does not raise; then the document count is exact and the total is
  what the loop computes over the sample, which is the first 100 records of the
  collection and no more, whatever its size; when an error is reported the count and the
  totals are 0. The average is the floor division of the total by the sample size, and 0
  when the sample is empty. In particular an empty collection on a backend that does not
  fail gives an average of 0 and no error: there is no division by zero.
\<close>

theorem stats_bounded_sample:
  assumes "ensure_initialized s = Inr c"
  shows "\<exists>r. get_collection_stats s = Inr r \<and>
           (st_error r = None \<longleftrightarrow>
              fault c CCount = None \<and> fault c CGet = None \<and>
              (\<exists>t. sum_content_length (map emeta (take 100 (entries c))) 0 = Inr t)) \<and>
           (st_error r = None \<longrightarrow>
              st_total_documents r = length (entries c) \<and>
              sum_content_length (map emeta (take 100 (entries c))) 0
                = Inr (st_total_content_length r)) \<and>
           (st_error r \<noteq> None \<longrightarrow>
              st_total_documents r = 0 \<and> st_total_content_length r = 0) \<and>
           st_avg_content_length r =
             (if take 100 (entries c) = [] then 0
              else st_total_content_length r div int (length (take 100 (entries c)))) \<and>
           (entries c = [] \<longrightarrow> fault c CCount = None \<longrightarrow> fault c CGet = None \<longrightarrow>
              st_error r = None \<and> st_total_content_length r = 0 \<and>
              st_avg_content_length r = 0)"
proof (cases "fault c CCount = None \<and> fault c CGet = None")
  case True
  then have body: "stats_body s c =
           (case sum_content_length (map emeta (take 100 (entries c))) 0 of
              Inl e \<Rightarrow> Inl e
            | Inr total_length \<Rightarrow>
                Inr \<lparr>st_collection_name = collection_name s,
                     st_total_documents = length (entries c),
                     st_total_content_length = total_length,
                     st_avg_content_length =
                       (if take 100 (entries c) = [] then 0
                        else total_length div int (length (take 100 (entries c)))),
                     st_initialized = initialized s,
                     st_error = None\<rparr>)"
    by (simp add: stats_body_healthy)
  show ?thesis
  proof (cases "sum_content_length (map emeta (take 100 (entries c))) 0")
    case (Inl e)
    then have "entries c \<noteq> []"
      by auto
    with Inl body assms show ?thesis
      by (simp add: get_collection_stats_def)
  next
    case (Inr total_length)
    then have "entries c = [] \<longrightarrow> total_length = 0"
      by auto
    with Inr body assms True show ?thesis
      by (simp add: get_collection_stats_def)
  qed
next
  case False
  then obtain e where "stats_body s c = Inl e"
    using stats_body_faulty [of c s] by blast
  with assms False show ?thesis
    by (auto simp: get_collection_stats_def)
qed

theorem stats_bounded_sample_witness:
  "get_collection_stats (ready \<lparr>entries = numbered 150, fault = no_fault\<rparr>) =
     Inr \<lparr>st_collection_name = ''learning_data'', st_total_documents = 150,
          st_total_content_length = 400, st_avg_content_length = 4,
          st_initialized = True, st_error = None\<rparr> \<and>
   sum_content_length (map emeta (take 100 (numbered 150))) 0 = Inr 400 \<and>
   length (take 100 (numbered 150)) = 100 \<and>
   get_collection_stats (ready \<lparr>entries = [], fault = no_fault\<rparr>) =
     Inr \<lparr>st_collection_name = ''learning_data'', st_total_documents = 0,
          st_total_content_length = 0, st_avg_content_length = 0,
          st_initialized = True, st_error = None\<rparr>"
proof -
  have "length (take 100 (numbered 150)) = 100"
    by (simp add: numbered_def)
  moreover have "get_collection_stats (ready \<lparr>entries = [], fault = no_fault\<rparr>) =
     Inr \<lparr>st_collection_name = ''learning_data'', st_total_documents = 0,
          st_total_content_length = 0, st_avg_content_length = 0,
          st_initialized = True, st_error = None\<rparr>"
    by (simp add: get_collection_stats_def ensure_ready stats_body_healthy no_fault_def)
       (simp add: ready_def)
  ultimately show ?thesis
    using stats_bounded_sample [OF ensure_ready, of "\<lparr>entries = numbered 150, fault = no_fault\<rparr>"]
      stats_bounded_sample [OF ensure_ready, of "\<lparr>entries = [], fault = no_fault\<rparr>"]
      stats_numbered
    by auto
qed

section \<open>Retention\<close>

lemma is_old_iff:
  "is_old cutoff_iso m \<longleftrightarrow>
     (\<exists>md t. m = Some md \<and> dict_get md ''created_at'' = Some (MStr t) \<and> t < cutoff_iso)"
  by (auto simp: is_old_def dict_get_def split: option.splits mvalue.splits)

lemma collect_old_entries:
  "collect_old cutoff_iso (pre @ map eid xs) (length pre) (map emeta xs) acc =
     Inr (acc @ map eid (filter (\<lambda>e. is_old cutoff_iso (emeta e)) xs))"
proof (induction xs arbitrary: pre acc)
  case Nil
  then show ?case by simp
next
  case (Cons x xs)
  have "collect_old cutoff_iso ((pre @ [eid x]) @ map eid xs) (length (pre @ [eid x])) (map emeta xs) acc' =
     Inr (acc' @ map eid (filter (\<lambda>e. is_old cutoff_iso (emeta e)) xs))" for acc'
    by (rule Cons.IH)
  then show ?case
    by (simp add: nth_append)
qed

lemma collect_old_all:
  "collect_old cutoff_iso (map eid xs) 0 (map emeta xs) [] =
     Inr (map eid (filter (\<lambda>e. is_old cutoff_iso (emeta e)) xs))"
  using collect_old_entries [of cutoff_iso "[]" xs "[]"] by simp

lemma delete_old_ids:
  assumes "distinct (map eid xs)"
  shows "filter (\<lambda>e. eid e \<notin> eid ` {x \<in> set xs. P x}) xs = filter (\<lambda>e. \<not> P e) xs"
proof (rule filter_cong [OF refl])
  fix e assume e: "e \<in> set xs"
  have "inj_on eid (set xs)"
    using assms by (simp add: distinct_map)
  then have "eid e \<in> eid ` {x \<in> set xs. P x} \<longleftrightarrow> P e"
    using e by (auto dest: inj_onD)
  then show "(eid e \<notin> eid ` {x \<in> set xs. P x}) = (\<not> P e)"
    by simp
qed

lemma cleanup_body_healthy:
  assumes "cutoff days = Inr cutoff_iso" "fault c CGet = None" "fault c CDelete = None"
    and "distinct (map eid (entries c))"
  shows "cleanup_body cutoff s c days =
     Inr (Cleaned (length (filter (\<lambda>e. is_old cutoff_iso (emeta e)) (entries c))) cutoff_iso days,
          if filter (\<lambda>e. is_old cutoff_iso (emeta e)) (entries c) = [] then s
          else s\<lparr>collection := Some (c\<lparr>entries :=
                 filter (\<lambda>e. \<not> is_old cutoff_iso (emeta e)) (entries c)\<rparr>)\<rparr>)"
proof (cases "entries c = []")
  case True
  with assms show ?thesis
    by (simp add: cleanup_body_def coll_get_def project_def Let_def)
next
  case False
  with assms show ?thesis
    by (simp add: cleanup_body_def coll_get_def coll_delete_def project_def collect_old_all
        delete_old_ids Let_def)
qed

lemma cleanup_body_unchanged:
  assumes "cleanup_body cutoff s c days = Inr (r, s')" "s' \<noteq> s"
  shows "\<exists>cutoff_iso. cutoff days = Inr cutoff_iso \<and> fault c CGet = None \<and> fault c CDelete = None"
  using assms
  by (auto simp: cleanup_body_def coll_get_def coll_delete_def split: sum.splits option.splits if_splits)

text \<open>The state after cleanup holds the records that are not old, or all of them.\<close>

lemma cleanup_old_documents_state:
  assumes init: "ensure_initialized s = Inr c"
    and dist: "distinct (map eid (entries c))"
  shows "\<exists>r s'. cleanup_old_documents cutoff s days = Inr (r, s') \<and>
           (s' = s \<or>
            (\<exists>cutoff_iso. cutoff days = Inr cutoff_iso \<and> fault c CGet = None \<and> fault c CDelete = None \<and>
               s' = s\<lparr>collection := Some (c\<lparr>entries :=
                      filter (\<lambda>e. \<not> is_old cutoff_iso (emeta e)) (entries c)\<rparr>)\<rparr>))"
proof (cases "cleanup_body cutoff s c days")
  case (Inl e)
  with init show ?thesis by (simp add: cleanup_old_documents_def)
next
  case (Inr p)
  obtain r s' where p: "p = (r, s')" by (cases p)
  show ?thesis
  proof (cases "s' = s")
    case True
    with Inr p init show ?thesis by (simp add: cleanup_old_documents_def)
  next
    case False
    from cleanup_body_unchanged [OF Inr [unfolded p] False] obtain cutoff_iso where
      h: "cutoff days = Inr cutoff_iso" "fault c CGet = None" "fault c CDelete = None"
      by blast
    from cleanup_body_healthy [where cutoff = cutoff and days = days and s = s, OF h dist] Inr p False
    have "s' = s\<lparr>collection := Some (c\<lparr>entries :=
                      filter (\<lambda>e. \<not> is_old cutoff_iso (emeta e)) (entries c)\<rparr>)\<rparr>"
      by (auto split: if_splits)
    with h Inr p init show ?thesis
      by (simp add: cleanup_old_documents_def)
  qed
qed

lemma cleanup_keeps:
  assumes init: "ensure_initialized s = Inr c"
    and dist: "distinct (map eid (entries c))"
    and e: "e \<in> set (entries c)"
    and young: "\<And>cutoff_iso. cutoff days = Inr cutoff_iso \<Longrightarrow> \<not> is_old cutoff_iso (emeta e)"
  shows "\<exists>r s' c'. cleanup_old_documents cutoff s days = Inr (r, s') \<and>
           ensure_initialized s' = Inr c' \<and> e \<in> set (entries c')"
proof -
  from cleanup_old_documents_state [OF init dist, of cutoff days] obtain r s' where
    run: "cleanup_old_documents cutoff s days = Inr (r, s')"
    and s': "s' = s \<or>
            (\<exists>cutoff_iso. cutoff days = Inr cutoff_iso \<and> fault c CGet = None \<and> fault c CDelete = None \<and>
               s' = s\<lparr>collection := Some (c\<lparr>entries :=
                      filter (\<lambda>e. \<not> is_old cutoff_iso (emeta e)) (entries c)\<rparr>)\<rparr>)"
    by blast
  from s' show ?thesis
  proof
    assume "s' = s"
    with run init e show ?thesis by blast
  next
    assume "\<exists>cutoff_iso. cutoff days = Inr cutoff_iso \<and> fault c CGet = None \<and> fault c CDelete = None \<and>
               s' = s\<lparr>collection := Some (c\<lparr>entries :=
                      filter (\<lambda>e. \<not> is_old cutoff_iso (emeta e)) (entries c)\<rparr>)\<rparr>"
    then obtain cutoff_iso where c: "cutoff days = Inr cutoff_iso"
      and eq: "s' = s\<lparr>collection := Some (c\<lparr>entries :=
                      filter (\<lambda>e. \<not> is_old cutoff_iso (emeta e)) (entries c)\<rparr>)\<rparr>"
      by blast
    have "ensure_initialized s' = Inr (c\<lparr>entries :=
                      filter (\<lambda>e. \<not> is_old cutoff_iso (emeta e)) (entries c)\<rparr>)"
      unfolding eq by (rule ensure_initialized_collection_update [OF init])
    moreover have "e \<in> set (filter (\<lambda>e. \<not> is_old cutoff_iso (emeta e)) (entries c))"
      using e young [OF c] by simp
    ultimately show ?thesis
      using run by auto
  qed
qed

lemma cleanup_old_documents_healthy:
  assumes init: "ensure_initialized s = Inr c"
    and dist: "distinct (map eid (entries c))"
    and h: "cutoff days = Inr cutoff_iso" "fault c CGet = None" "fault c CDelete = None"
  shows "\<exists>s'. cleanup_old_documents cutoff s days =
              Inr (Cleaned (length (filter (\<lambda>e. is_old cutoff_iso (emeta e)) (entries c)))
                     cutoff_iso days, s') \<and>
              ensure_initialized s' =
                Inr (c\<lparr>entries := filter (\<lambda>e. \<not> is_old cutoff_iso (emeta e)) (entries c)\<rparr>)"
proof (cases "filter (\<lambda>e. is_old cutoff_iso (emeta e)) (entries c) = []")
  case True
  then have "filter (\<lambda>e. \<not> is_old cutoff_iso (emeta e)) (entries c) = entries c"
    by (simp add: filter_empty_conv)
  with True init cleanup_body_healthy [where cutoff = cutoff and days = days and s = s, OF h dist]
  show ?thesis
    by (simp add: cleanup_old_documents_def)
next
  case False
  with init cleanup_body_healthy [where cutoff = cutoff and days = days and s = s, OF h dist]
  have "cleanup_old_documents cutoff s days =
          Inr (Cleaned (length (filter (\<lambda>e. is_old cutoff_iso (emeta e)) (entries c)))
                 cutoff_iso days,
               s\<lparr>collection := Some (c\<lparr>entries :=
                   filter (\<lambda>e. \<not> is_old cutoff_iso (emeta e)) (entries c)\<rparr>)\<rparr>)"
    by (simp add: cleanup_old_documents_def)
  with ensure_initialized_collection_update [OF init] show ?thesis
    by blast
qed

lemma cleanup_shelf:
  "cleanup_old_documents (\<lambda>_. Inr ''2025-01-01T00:00:00'') (ready shelf) 90 =
     Inr (Cleaned 1 ''2025-01-01T00:00:00'' 90, ready shelf_cleaned)"
  by (simp add: cleanup_old_documents_def cleanup_body_def coll_get_def coll_delete_def
      project_def Let_def is_old_def dict_get_def ensure_initialized_def ready_def shelf_def
      shelf_cleaned_def record_of_def no_fault_def)

lemma distinct_shelf: "distinct (map eid (entries shelf))"
  by (simp add: shelf_def record_of_def)

text \<open>
  C4. On an initialized store whose records have distinct ids, \<open>cleanup_old_documents\<close>
  returns, and for the cutoff string it computed: no record whose \<open>created_at\<close> is a string
  at or after the cutoff in lexicographic order is deleted, whether or not the backend
  fails; and when the backend's \<open>get\<close> and \<open>delete\<close> do not fail, every record whose
  \<open>created_at\<close> is a string before the cutoff is deleted, the records left are exactly the
  others, and the count returned is the number of records deleted, each counted once.
\<close>

theorem cleanup_retention_exact:
  assumes init: "ensure_initialized s = Inr c"
    and dist: "distinct (map eid (entries c))"
  shows "\<exists>r s' c'. cleanup_old_documents cutoff s days = Inr (r, s') \<and>
           ensure_initialized s' = Inr c' \<and>
           (\<forall>cutoff_iso. cutoff days = Inr cutoff_iso \<longrightarrow>
              (\<forall>e \<in> set (entries c). \<forall>md t.
                 emeta e = Some md \<longrightarrow> dict_get md ''created_at'' = Some (MStr t) \<longrightarrow>
                 cutoff_iso \<le> t \<longrightarrow> e \<in> set (entries c')) \<and>
              (fault c CGet = None \<longrightarrow> fault c CDelete = None \<longrightarrow>
                 (\<forall>e \<in> set (entries c). \<forall>md t.
                    emeta e = Some md \<longrightarrow> dict_get md ''created_at'' = Some (MStr t) \<longrightarrow>
                    t < cutoff_iso \<longrightarrow> e \<notin> set (entries c')) \<and>
                 entries c' = filter (\<lambda>e. \<not> is_old cutoff_iso (emeta e)) (entries c) \<and>
                 r = Cleaned (length (filter (\<lambda>e. is_old cutoff_iso (emeta e)) (entries c)))
                       cutoff_iso days \<and>
                 length (entries c') +
                   length (filter (\<lambda>e. is_old cutoff_iso (emeta e)) (entries c))
                 = length (entries c)))"
proof -
  from cleanup_old_documents_state [OF init dist, of cutoff days] obtain r s' where
    run: "cleanup_old_documents cutoff s days = Inr (r, s')"
    and s': "s' = s \<or>
            (\<exists>cutoff_iso. cutoff days = Inr cutoff_iso \<and> fault c CGet = None \<and> fault c CDelete = None \<and>
               s' = s\<lparr>collection := Some (c\<lparr>entries :=
                      filter (\<lambda>e. \<not> is_old cutoff_iso (emeta e)) (entries c)\<rparr>)\<rparr>)"
    by blast
  from s' init obtain c' where c': "ensure_initialized s' = Inr c'"
    by (auto simp: ensure_initialized_Inr)
  have keep: "e \<in> set (entries c')"
    if "cutoff days = Inr cutoff_iso" "e \<in> set (entries c)" "emeta e = Some md"
      "dict_get md ''created_at'' = Some (MStr t)" "cutoff_iso \<le> t" for cutoff_iso e md t
  proof -
    have "\<not> is_old cutoff_iso' (emeta e)" if "cutoff days = Inr cutoff_iso'" for cutoff_iso'
      using that \<open>cutoff days = Inr cutoff_iso\<close> \<open>emeta e = Some md\<close>
        \<open>dict_get md ''created_at'' = Some (MStr t)\<close> \<open>cutoff_iso \<le> t\<close>
      by (auto simp: is_old_iff)
    from cleanup_keeps [where cutoff = cutoff and days = days,
        OF init dist \<open>e \<in> set (entries c)\<close> this] run c'
    show ?thesis by auto
  qed
  have exact: "(\<forall>e \<in> set (entries c). \<forall>md t.
                    emeta e = Some md \<longrightarrow> dict_get md ''created_at'' = Some (MStr t) \<longrightarrow>
                    t < cutoff_iso \<longrightarrow> e \<notin> set (entries c')) \<and>
                 entries c' = filter (\<lambda>e. \<not> is_old cutoff_iso (emeta e)) (entries c) \<and>
                 r = Cleaned (length (filter (\<lambda>e. is_old cutoff_iso (emeta e)) (entries c)))
                       cutoff_iso days \<and>
                 length (entries c') +
                   length (filter (\<lambda>e. is_old cutoff_iso (emeta e)) (entries c))
                 = length (entries c)"
    if h: "cutoff days = Inr cutoff_iso" "fault c CGet = None" "fault c CDelete = None"
    for cutoff_iso
  proof -
    from cleanup_old_documents_healthy [where cutoff = cutoff and days = days, OF init dist h]
      run c'
    have r: "r = Cleaned (length (filter (\<lambda>e. is_old cutoff_iso (emeta e)) (entries c)))
                       cutoff_iso days"
      and e: "entries c' = filter (\<lambda>e. \<not> is_old cutoff_iso (emeta e)) (entries c)"
      by auto
    have "e \<notin> set (entries c')"
      if "emeta e = Some md" "dict_get md ''created_at'' = Some (MStr t)" "t < cutoff_iso"
      for e md t
      using that by (auto simp: e is_old_iff)
    moreover have "length (entries c') +
                   length (filter (\<lambda>e. is_old cutoff_iso (emeta e)) (entries c))
                 = length (entries c)"
      unfolding e
      using sum_length_filter_compl [of "\<lambda>e. is_old cutoff_iso (emeta e)" "entries c"]
      by simp
    ultimately show ?thesis
      using r e by blast
  qed
  from run c' keep exact show ?thesis
    by blast
qed

theorem cleanup_retention_exact_witness:
  "cleanup_old_documents (\<lambda>_. Inr ''2025-01-01T00:00:00'') (ready shelf) 90 =
     Inr (Cleaned 1 ''2025-01-01T00:00:00'' 90, ready shelf_cleaned) \<and>
   record_of ''n4'' ''delta'' [(''created_at'', MStr ''2025-06-01T12:00:00.000001'')]
     \<in> set (entries shelf_cleaned) \<and>
   record_of ''n3'' ''gamma'' [(''created_at'', MStr ''2020-01-01T00:00:00'')]
     \<notin> set (entries shelf_cleaned) \<and>
   length (entries shelf_cleaned) + 1 = length (entries shelf)"
proof -
  have n4: "record_of ''n4'' ''delta'' [(''created_at'', MStr ''2025-06-01T12:00:00.000001'')]
      \<in> set (entries shelf)"
    "emeta (record_of ''n4'' ''delta'' [(''created_at'', MStr ''2025-06-01T12:00:00.000001'')])
      = Some [(''created_at'', MStr ''2025-06-01T12:00:00.000001'')]"
    "dict_get [(''created_at'', MStr ''2025-06-01T12:00:00.000001'')] ''created_at''
      = Some (MStr ''2025-06-01T12:00:00.000001'')"
    "''2025-01-01T00:00:00'' \<le> ''2025-06-01T12:00:00.000001''"
    by (simp_all add: shelf_def record_of_def dict_get_def list_le_def)
  have n3: "record_of ''n3'' ''gamma'' [(''created_at'', MStr ''2020-01-01T00:00:00'')]
      \<in> set (entries shelf)"
    "emeta (record_of ''n3'' ''gamma'' [(''created_at'', MStr ''2020-01-01T00:00:00'')])
      = Some [(''created_at'', MStr ''2020-01-01T00:00:00'')]"
    "dict_get [(''created_at'', MStr ''2020-01-01T00:00:00'')] ''created_at''
      = Some (MStr ''2020-01-01T00:00:00'')"
    "''2020-01-01T00:00:00'' < ''2025-01-01T00:00:00''"
    by (simp_all add: shelf_def record_of_def dict_get_def)
  have ok: "fault shelf CGet = None" "fault shelf CDelete = None"
    by (simp_all add: shelf_def no_fault_def)
  from cleanup_retention_exact [OF ensure_ready distinct_shelf,
      of "\<lambda>_. Inr ''2025-01-01T00:00:00''" 90]
  obtain r s' c' where
    run: "cleanup_old_documents (\<lambda>_. Inr ''2025-01-01T00:00:00'') (ready shelf) 90 = Inr (r, s')"
    and c': "ensure_initialized s' = Inr c'"
    and keep: "\<forall>e \<in> set (entries shelf). \<forall>md t.
                 emeta e = Some md \<longrightarrow> dict_get md ''created_at'' = Some (MStr t) \<longrightarrow>
                 ''2025-01-01T00:00:00'' \<le> t \<longrightarrow> e \<in> set (entries c')"
    and drop: "\<forall>e \<in> set (entries shelf). \<forall>md t.
                    emeta e = Some md \<longrightarrow> dict_get md ''created_at'' = Some (MStr t) \<longrightarrow>
                    t < ''2025-01-01T00:00:00'' \<longrightarrow> e \<notin> set (entries c')"
    and len: "length (entries c') +
                   length (filter (\<lambda>e. is_old ''2025-01-01T00:00:00'' (emeta e)) (entries shelf))
                 = length (entries shelf)"
    and r: "r = Cleaned (length (filter (\<lambda>e. is_old ''2025-01-01T00:00:00'' (emeta e)) (entries shelf)))
                       ''2025-01-01T00:00:00'' 90"
    using ok by blast
  from run cleanup_shelf have s'_eq: "s' = ready shelf_cleaned"
    and r_eq: "r = Cleaned 1 ''2025-01-01T00:00:00'' 90"
    by simp_all
  from c' have c'_eq: "c' = shelf_cleaned"
    unfolding s'_eq by (simp add: ensure_ready)
  from r r_eq have "length (filter (\<lambda>e. is_old ''2025-01-01T00:00:00'' (emeta e)) (entries shelf)) = 1"
    by simp
  with len keep n4 drop n3 cleanup_shelf show ?thesis
    unfolding c'_eq by metis
qed

text \<open>
  C5, as the code has it. A record that has no metadata, whose metadata has no
  \<open>created_at\<close>, or whose \<open>created_at\<close> is not a string is never deleted by
  \<open>cleanup_old_documents\<close>, for any \<open>max_age_days\<close>; a \<open>created_at\<close> string is kept when it
  does not compare below the cutoff string, well-formed or not.
\<close>

theorem cleanup_keeps_undated:
  assumes init: "ensure_initialized s = Inr c"
    and dist: "distinct (map eid (entries c))"
    and e: "e \<in> set (entries c)"
    and undated: "emeta e = None \<or>
       (\<exists>md. emeta e = Some md \<and>
          (\<forall>t. dict_get md ''created_at'' = Some (MStr t) \<longrightarrow>
             (\<forall>cutoff_iso. cutoff days = Inr cutoff_iso \<longrightarrow> cutoff_iso \<le> t)))"
  shows "\<exists>r s' c'. cleanup_old_documents cutoff s days = Inr (r, s') \<and>
           ensure_initialized s' = Inr c' \<and> e \<in> set (entries c')"
proof (rule cleanup_keeps [where cutoff = cutoff and days = days, OF init dist e])
  fix cutoff_iso assume "cutoff days = Inr cutoff_iso"
  with undated show "\<not> is_old cutoff_iso (emeta e)"
    by (auto simp: is_old_iff)
qed

theorem cleanup_keeps_undated_witness:
  "cleanup_old_documents (\<lambda>_. Inr ''2025-01-01T00:00:00'') (ready shelf) 90 =
     Inr (Cleaned 1 ''2025-01-01T00:00:00'' 90, ready shelf_cleaned) \<and>
   record_of ''n1'' ''alpha'' [(''source'', MStr ''rss'')] \<in> set (entries shelf_cleaned) \<and>
   record_of ''n2'' ''beta'' [(''created_at'', MInt 20200101)] \<in> set (entries shelf_cleaned)"
proof -
  have n1: "record_of ''n1'' ''alpha'' [(''source'', MStr ''rss'')] \<in> set (entries shelf)"
    by (simp add: shelf_def)
  have u1: "emeta (record_of ''n1'' ''alpha'' [(''source'', MStr ''rss'')]) = None \<or>
       (\<exists>md. emeta (record_of ''n1'' ''alpha'' [(''source'', MStr ''rss'')]) = Some md \<and>
          (\<forall>t. dict_get md ''created_at'' = Some (MStr t) \<longrightarrow>
             (\<forall>cutoff_iso. (\<lambda>_::int. Inr ''2025-01-01T00:00:00'' :: exn + string) 90 = Inr cutoff_iso \<longrightarrow> cutoff_iso \<le> t)))"
    by (simp add: record_of_def dict_get_def)
  have n2: "record_of ''n2'' ''beta'' [(''created_at'', MInt 20200101)] \<in> set (entries shelf)"
    by (simp add: shelf_def)
  have u2: "emeta (record_of ''n2'' ''beta'' [(''created_at'', MInt 20200101)]) = None \<or>
       (\<exists>md. emeta (record_of ''n2'' ''beta'' [(''created_at'', MInt 20200101)]) = Some md \<and>
          (\<forall>t. dict_get md ''created_at'' = Some (MStr t) \<longrightarrow>
             (\<forall>cutoff_iso. (\<lambda>_::int. Inr ''2025-01-01T00:00:00'' :: exn + string) 90 = Inr cutoff_iso \<longrightarrow> cutoff_iso \<le> t)))"
    by (simp add: record_of_def dict_get_def)
  from cleanup_keeps_undated [where cutoff = "\<lambda>_. Inr ''2025-01-01T00:00:00''" and days = 90,
      OF ensure_ready distinct_shelf n1 u1]
    cleanup_keeps_undated [where cutoff = "\<lambda>_. Inr ''2025-01-01T00:00:00''" and days = 90,
      OF ensure_ready distinct_shelf n2 u2] cleanup_shelf
  show ?thesis
    by (auto simp: ensure_ready)
qed

text \<open>
  C5 as stated fails: \<open>1 Jan 2020\<close> is not a timestamp of the shape
  \<open>datetime.isoformat()\<close> writes, it compares below the cutoff string, and the record
  that carries it is deleted.
\<close>

theorem cleanup_malformed_counterexample:
  "\<not> is_isoformat ''1 Jan 2020'' \<and>
   cleanup_old_documents (\<lambda>_. Inr ''2025-01-01T00:00:00'')
     (ready \<lparr>entries = [record_of ''n1'' ''note'' [(''created_at'', MStr ''1 Jan 2020'')]],
             fault = no_fault\<rparr>) 90
   = Inr (Cleaned 1 ''2025-01-01T00:00:00'' 90, ready \<lparr>entries = [], fault = no_fault\<rparr>)"
  by (simp add: is_isoformat_def cleanup_old_documents_def cleanup_body_def coll_get_def
      coll_delete_def project_def Let_def is_old_def dict_get_def ensure_initialized_def ready_def
      record_of_def no_fault_def)

end
